theory Spec2Isabelle
  imports Main "HOL-Library.Sublist"
begin

section \<open>Text\<close>

text \<open>
  A JavaScript string is modelled as a \<^typ>\<open>string\<close>, one \<^typ>\<open>char\<close> per UTF-16 code
  unit. This is exact for text whose code units are below 256; every pattern, marker and
  message of the validator is ASCII.
\<close>

definition code_unit :: "char \<Rightarrow> nat" where
  "code_unit c = of_char c"

text \<open>\<open>s.startsWith(t)\<close> and \<open>s.includes(t)\<close>.\<close>

fun starts_with :: "string \<Rightarrow> string \<Rightarrow> bool" where
  "starts_with s [] = True"
| "starts_with [] (y # ys) = False"
| "starts_with (x # xs) (y # ys) = (x = y \<and> starts_with xs ys)"

fun str_includes :: "string \<Rightarrow> string \<Rightarrow> bool" where
  "str_includes [] t = (t = [])"
| "str_includes (x # xs) t = (starts_with (x # xs) t \<or> str_includes xs t)"

text \<open>Decimal rendering of a non-negative integer, as a template literal prints it.\<close>

definition digit_char :: "nat \<Rightarrow> char" where
  "digit_char d = ''0123456789'' ! d"

fun show_nat :: "nat \<Rightarrow> string" where
  "show_nat n = (if n < 10 then [digit_char n] else show_nat (n div 10) @ [digit_char (n mod 10)])"

declare show_nat.simps [simp del]

text \<open>\<open>xs.join(sep)\<close> on a list of strings.\<close>

fun join :: "string \<Rightarrow> string list \<Rightarrow> string" where
  "join sep [] = []"
| "join sep [x] = x"
| "join sep (x # y # ys) = x @ sep @ join sep (y # ys)"

text \<open>\<open>s.split(c)\<close> for a one-character separator: the empty string gives one empty piece.\<close>

fun split_char :: "char \<Rightarrow> string \<Rightarrow> string list" where
  "split_char c [] = [[]]"
| "split_char c (x # xs) =
     (if x = c then [] # split_char c xs
      else (case split_char c xs of [] \<Rightarrow> [[x]] | w # ws \<Rightarrow> (x # w) # ws))"

text \<open>\<open>toLowerCase\<close> and \<open>toUpperCase\<close> on one code unit below 256, where both give one code
  unit for one (beyond, lower-casing can give more: U+0130 becomes two). Upper-casing is only
  ever applied by the source to letters and digits of ASCII.\<close>

definition to_lower_char :: "char \<Rightarrow> char" where
  "to_lower_char c =
     (let n = code_unit c in
      if 65 \<le> n \<and> n \<le> 90 then char_of (n + 32)
      else if 192 \<le> n \<and> n \<le> 222 \<and> n \<noteq> 215 then char_of (n + 32)
      else c)"

definition to_upper_char :: "char \<Rightarrow> char" where
  "to_upper_char c = (let n = code_unit c in if 97 \<le> n \<and> n \<le> 122 then char_of (n - 32) else c)"

definition toLowerCase :: "string \<Rightarrow> string" where
  "toLowerCase s = map to_lower_char s"

section \<open>Regular expressions of the validator\<close>

text \<open>
  Every regular expression in the source is a sequence of single characters and character
  classes, each taken once, or under a greedy \<open>*\<close> or \<open>+\<close>, with an optional \<open>$\<close>, and at
  most one top-level alternation. \<open>rmatch\<close> is the backtracking matcher of JavaScript for this
  fragment: it returns the length of the first match found from the start of the string, trying
  the longest repetition first.
\<close>

datatype cls =
    Lit char          \<comment> \<open>a literal character\<close>
  | Space             \<comment> \<open>\<open>\s\<close>\<close>
  | Digit             \<comment> \<open>\<open>\d\<close>\<close>
  | Quote             \<comment> \<open>\<open>['"`]\<close>\<close>
  | NotQuote          \<comment> \<open>\<open>[^'"`]\<close>\<close>
  | Dot               \<comment> \<open>\<open>.\<close>: anything but a line terminator\<close>
  | IdChar            \<comment> \<open>\<open>[a-z0-9-_]\<close>\<close>

definition is_quote :: "char \<Rightarrow> bool" where
  "is_quote c = (code_unit c = 39 \<or> code_unit c = 34 \<or> code_unit c = 96)"

definition is_space :: "char \<Rightarrow> bool" where
  "is_space c = (let n = code_unit c in (9 \<le> n \<and> n \<le> 13) \<or> n = 32 \<or> n = 160)"

definition is_digit :: "char \<Rightarrow> bool" where
  "is_digit c = (48 \<le> code_unit c \<and> code_unit c \<le> 57)"

definition is_lower :: "char \<Rightarrow> bool" where
  "is_lower c = (97 \<le> code_unit c \<and> code_unit c \<le> 122)"

definition is_upper :: "char \<Rightarrow> bool" where
  "is_upper c = (65 \<le> code_unit c \<and> code_unit c \<le> 90)"

fun cls_match :: "cls \<Rightarrow> char \<Rightarrow> bool" where
  "cls_match (Lit a) c = (c = a)"
| "cls_match Space c = is_space c"
| "cls_match Digit c = is_digit c"
| "cls_match Quote c = is_quote c"
| "cls_match NotQuote c = (\<not> is_quote c)"
| "cls_match Dot c = (code_unit c \<noteq> 10 \<and> code_unit c \<noteq> 13)"
| "cls_match IdChar c = (is_lower c \<or> is_digit c \<or> code_unit c = 45 \<or> code_unit c = 95)"

datatype item = One cls | Star cls | End

fun rmatch :: "item list \<Rightarrow> string \<Rightarrow> nat option" where
  "rmatch [] s = Some 0"
| "rmatch (One k # is) [] = None"
| "rmatch (One k # is) (x # xs) =
     (if cls_match k x then map_option Suc (rmatch is xs) else None)"
| "rmatch (Star k # is) [] = rmatch is []"
| "rmatch (Star k # is) (x # xs) =
     (if cls_match k x
      then (case rmatch (Star k # is) xs of
              Some n \<Rightarrow> Some (Suc n)
            | None \<Rightarrow> rmatch is (x # xs))
      else rmatch is (x # xs))"
| "rmatch (End # is) s = (if s = [] then rmatch is [] else None)"

text \<open>A regular expression is the list of its alternatives, tried in order.\<close>

type_synonym regex = "item list list"

fun match_here :: "regex \<Rightarrow> string \<Rightarrow> nat option" where
  "match_here [] s = None"
| "match_here (a # as) s = (case rmatch a s of Some n \<Rightarrow> Some n | None \<Rightarrow> match_here as s)"

text \<open>
  \<open>s.match(re)\<close> with the global flag returns every match, found from left to right, each
  search resuming where the last match ended (one further after an empty match), or \<open>null\<close>
  when there is none. \<open>count_matches\<close> is the length of that array, 0 standing for \<open>null\<close>.
\<close>

fun count_matches :: "regex \<Rightarrow> string \<Rightarrow> nat" where
  "count_matches re [] = (case match_here re [] of Some n \<Rightarrow> 1 | None \<Rightarrow> 0)"
| "count_matches re (x # xs) =
     (case match_here re (x # xs) of
        Some n \<Rightarrow> Suc (count_matches re (drop (n - 1) xs))
      | None \<Rightarrow> count_matches re xs)"

text \<open>\<open>re.test(s)\<close> for an expression that starts with \<open>^\<close>: only position 0 is tried.\<close>

definition test_anchored :: "regex \<Rightarrow> string \<Rightarrow> bool" where
  "test_anchored re s = (match_here re s \<noteq> None)"

definition lit :: "string \<Rightarrow> item list" where
  "lit s = map (\<lambda>c. One (Lit c)) s"

definition one_or_more :: "cls \<Rightarrow> item list" where
  "one_or_more k = [One k, Star k]"

section \<open>JSON values\<close>

text \<open>
  The values \<open>JSON.parse\<close> returns. A number is kept as the decimal text JavaScript prints
  for it (\<open>''0''\<close> for both zeros), which is all the validator observes of a number: whether it
  is zero, and its text. An object lists its own properties in enumeration order.
\<close>

datatype json =
    JNull
  | JBool bool
  | JNum string
  | JStr string
  | JArr "json list"
  | JObj "(string \<times> json) list"

text \<open>Truthiness of a value read from a property; \<open>None\<close> is \<open>undefined\<close>.\<close>

fun truthy :: "json option \<Rightarrow> bool" where
  "truthy None = False"
| "truthy (Some JNull) = False"
| "truthy (Some (JBool b)) = b"
| "truthy (Some (JNum n)) = (n \<noteq> ''0'')"
| "truthy (Some (JStr s)) = (s \<noteq> [])"
| "truthy (Some (JArr xs)) = True"
| "truthy (Some (JObj kvs)) = True"

text \<open>
  \<open>v[key]\<close> for the keys the validator reads (\<open>id\<close>, \<open>name\<close>, \<open>version\<close>, \<open>description\<close>,
  \<open>category\<close>, \<open>developer\<close>, \<open>type\<close>, \<open>dependencies\<close>): none of them is an index or \<open>length\<close>, so
  only an object can have one. Reading a property of \<open>null\<close> throws a TypeError, whose message
  is the left result.
\<close>

fun get_prop :: "json \<Rightarrow> string \<Rightarrow> string + json option" where
  "get_prop JNull k = Inl (''Cannot read properties of null (reading '' @ [CHR 0x27] @ k @ [CHR 0x27] @ '')'')"
| "get_prop (JObj kvs) k = Inr (map_of kvs k)"
| "get_prop v k = Inr None"

text \<open>
  String conversion of a value, as a regular expression's \<open>test\<close> and a template literal apply
  it. An object prints as \<open>[object Object]\<close> unless it has an own property \<open>toString\<close>, which
  hides the inherited method with a value that cannot be called: the conversion then throws a
  TypeError (\<open>None\<close>). An array joins its elements with commas, \<open>null\<close> elements printing as
  nothing.
\<close>

fun to_string :: "json \<Rightarrow> string option"
  and join_elems :: "json list \<Rightarrow> string option"
  and elem_string :: "json \<Rightarrow> string option" where
  "to_string JNull = Some ''null''"
| "to_string (JBool b) = Some (if b then ''true'' else ''false'')"
| "to_string (JNum n) = Some n"
| "to_string (JStr s) = Some s"
| "to_string (JArr xs) = join_elems xs"
| "to_string (JObj kvs) =
     (if ''toString'' \<in> set (map fst kvs) then None else Some ''[object Object]'')"
| "join_elems [] = Some []"
| "join_elems [x] = elem_string x"
| "join_elems (x # y # ys) =
     (case elem_string x of
        None \<Rightarrow> None
      | Some s \<Rightarrow> (case join_elems (y # ys) of None \<Rightarrow> None | Some r \<Rightarrow> Some (s @ '','' @ r)))"
| "elem_string JNull = Some []"
| "elem_string (JBool b) = to_string (JBool b)"
| "elem_string (JNum n) = to_string (JNum n)"
| "elem_string (JStr s) = to_string (JStr s)"
| "elem_string (JArr xs) = join_elems xs"
| "elem_string (JObj kvs) =
     (if ''toString'' \<in> set (map fst kvs) then None else Some ''[object Object]'')"

definition cannot_convert :: string where
  "cannot_convert = ''Cannot convert object to primitive value''"

text \<open>\<open>Object.keys(v)\<close> for a truthy value: the keys of an object, the indices of an array or of
  a string, nothing for a number or a boolean.\<close>

fun object_keys :: "json \<Rightarrow> string list" where
  "object_keys (JObj kvs) = map fst kvs"
| "object_keys (JArr xs) = map show_nat [0..<length xs]"
| "object_keys (JStr s) = map show_nat [0..<length s]"
| "object_keys v = []"

section \<open>The validator\<close>

subsection \<open>Rule table and required files\<close>

datatype severity = Critical | High | Medium

record rule =
  pattern :: regex
  severity :: severity
  message :: string

definition mk_rule :: "item list \<Rightarrow> severity \<Rightarrow> string \<Rightarrow> rule" where
  "mk_rule p s m = \<lparr>pattern = [p], severity = s, message = m\<rparr>"

definition SECURITY_PATTERNS :: "rule list" where
  "SECURITY_PATTERNS =
   [mk_rule (lit ''require'' @ [Star Space] @ lit ''('' @ [Star Space, One Quote]
              @ lit ''child_process'' @ [One Quote, Star Space] @ lit '')'')
      Critical ''Child process access forbidden'',
    mk_rule (lit ''import'' @ one_or_more Space @ [Star Dot] @ one_or_more Space @ lit ''from''
              @ one_or_more Space @ [One Quote] @ lit ''child_process'' @ [One Quote])
      Critical ''Child process import forbidden'',
    mk_rule (lit ''process.env'') Critical ''Environment variable access forbidden'',
    mk_rule (lit ''eval'' @ [Star Space] @ lit ''('') Critical ''Code evaluation forbidden'',
    mk_rule (lit ''new'' @ one_or_more Space @ lit ''Function'' @ [Star Space] @ lit ''('')
      Critical ''Function constructor forbidden'',
    mk_rule (lit ''.exec'' @ [Star Space] @ lit ''('') High ''Process execution forbidden'',
    mk_rule (lit ''.spawn'' @ [Star Space] @ lit ''('') High ''Process spawning forbidden'',
    mk_rule (lit ''fs.writeFile'') High ''File writing forbidden (use provided APIs)'',
    mk_rule (lit ''fs.unlink'') High ''File deletion forbidden'',
    mk_rule (lit ''fs.rmdir'') High ''Directory deletion forbidden'',
    mk_rule (lit ''require'' @ [Star Space] @ lit ''('' @ [Star Space, One Quote]
              @ lit ''fs'' @ [One Quote, Star Space] @ lit '')'')
      Medium ''Direct filesystem access discouraged'',
    mk_rule (lit ''setTimeout'' @ [Star Space] @ lit ''('' @ [Star Space, One Quote, Star NotQuote,
              One Quote, Star Space] @ lit '','')
      Medium ''String-based setTimeout forbidden'',
    mk_rule (lit ''setInterval'' @ [Star Space] @ lit ''('' @ [Star Space, One Quote, Star NotQuote,
              One Quote, Star Space] @ lit '','')
      Medium ''String-based setInterval forbidden'',
    mk_rule (lit ''while'' @ [Star Space] @ lit ''('' @ [Star Space] @ lit ''true'' @ [Star Space]
              @ lit '')'')
      Medium ''Infinite loops detected'',
    mk_rule (lit ''for'' @ [Star Space] @ lit ''('' @ [Star Space] @ lit '';;'' @ [Star Space]
              @ lit '')'')
      Medium ''Infinite loops detected'']"

definition REQUIRED_FILES :: "string list" where
  "REQUIRED_FILES = [''mercy-integration.json'', ''package.json'', ''src/integration.js'', ''README.md'']"

definition REQUIRED_CONFIG_FIELDS :: "string list" where
  "REQUIRED_CONFIG_FIELDS =
     [''id'', ''name'', ''version'', ''description'', ''category'', ''developer'']"

text \<open>\<open>/^\d+\.\d+\.\d+$/\<close>, \<open>/^[a-z0-9-_]+$/\<close> and \<open>/function|=>/g\<close>.\<close>

definition version_re :: regex where
  "version_re = [one_or_more Digit @ lit ''.'' @ one_or_more Digit @ lit ''.''
                  @ one_or_more Digit @ [End]]"

definition id_re :: regex where
  "id_re = [one_or_more IdChar @ [End]]"

definition function_re :: regex where
  "function_re = [lit ''function'', lit ''=>'']"

definition validCategories :: "string list" where
  "validCategories =
     [''moderation'', ''utility'', ''entertainment'', ''automation'', ''analytics'', ''security'']"

definition allowedDeps :: "string list" where
  "allowedDeps = [''discord.js'', ''axios'', ''lodash'', ''moment'', ''uuid'']"

subsection \<open>The directory and the result\<close>

text \<open>
  The working directory maps a path to what is there: nothing, a file with its text, or an
  entry that exists but cannot be read as a file (a directory, a file without read permission),
  with the message of the error \<open>readFile\<close> throws for it. \<open>JSON.parse\<close> belongs to the
  platform and is a parameter \<open>parse\<close> of the validator: it returns the parsed value, or the
  message of the SyntaxError on the left.
\<close>

datatype entry = File string | Unreadable string

type_synonym dir = "string \<Rightarrow> entry option"

type_synonym parser = "string \<Rightarrow> string + json"

definition access :: "dir \<Rightarrow> string \<Rightarrow> bool" where
  "access d p = (d p \<noteq> None)"

definition readFile :: "dir \<Rightarrow> string \<Rightarrow> string + string" where
  "readFile d p =
     (case d p of
        None \<Rightarrow> Inl (''ENOENT: no such file or directory, open '' @ [CHR 0x27] @ p @ [CHR 0x27])
      | Some (Unreadable msg) \<Rightarrow> Inl msg
      | Some (File text) \<Rightarrow> Inr text)"

record results =
  errors :: "string list"
  warnings :: "string list"
  score :: int
  isValid :: bool

definition initial_results :: results where
  "initial_results = \<lparr>errors = [], warnings = [], score = 100, isValid = True\<rparr>"

definition push_error :: "results \<Rightarrow> string \<Rightarrow> int \<Rightarrow> results" where
  "push_error r e penalty = r\<lparr>errors := errors r @ [e], score := score r - penalty\<rparr>"

definition push_warning :: "results \<Rightarrow> string \<Rightarrow> int \<Rightarrow> results" where
  "push_warning r w penalty = r\<lparr>warnings := warnings r @ [w], score := score r - penalty\<rparr>"

text \<open>
  A block inside \<open>try\<close> either completes with the result so far, or throws: the left value
  carries the exception's message and the result as it was when the exception was thrown,
  which is what the \<open>catch\<close> clause goes on from.
\<close>

type_synonym attempt = "(string \<times> results) + results"

definition and_then :: "attempt \<Rightarrow> (results \<Rightarrow> attempt) \<Rightarrow> attempt" where
  "and_then a f = (case a of Inl thrown \<Rightarrow> Inl thrown | Inr r \<Rightarrow> f r)"

subsection \<open>File structure\<close>

definition check_file :: "dir \<Rightarrow> string \<Rightarrow> results \<Rightarrow> results" where
  "check_file d file r =
     (if access d file then r else push_error r (''Missing required file: '' @ file) 20)"

definition check_files :: "dir \<Rightarrow> results \<Rightarrow> results" where
  "check_files d r = fold (check_file d) REQUIRED_FILES r"

text \<open>The guard in front of each later phase:
  \<open>results.errors.length === 0 || results.errors.every(e => !e.includes(file))\<close>.\<close>

definition no_error_mentions :: "string \<Rightarrow> results \<Rightarrow> bool" where
  "no_error_mentions file r =
     (length (errors r) = 0 \<or> list_all (\<lambda>e. \<not> str_includes e file) (errors r))"

subsection \<open>Configuration\<close>

fun check_fields :: "json \<Rightarrow> string list \<Rightarrow> results \<Rightarrow> attempt" where
  "check_fields config [] r = Inr r"
| "check_fields config (field # rest) r =
     (case get_prop config field of
        Inl msg \<Rightarrow> Inl (msg, r)
      | Inr v \<Rightarrow>
          check_fields config rest
            (if \<not> truthy v then push_error r (''Missing required config field: '' @ field) 10
             else r))"

definition check_version :: "json \<Rightarrow> results \<Rightarrow> attempt" where
  "check_version config r =
     (case get_prop config ''version'' of
        Inl msg \<Rightarrow> Inl (msg, r)
      | Inr None \<Rightarrow> Inr r
      | Inr (Some v) \<Rightarrow>
          if \<not> truthy (Some v) then Inr r
          else (case to_string v of
                  None \<Rightarrow> Inl (cannot_convert, r)
                | Some s \<Rightarrow>
                    if \<not> test_anchored version_re s
                    then Inr (push_warning r
                           ''Invalid version format, use semantic versioning (x.y.z)'' 5)
                    else Inr r))"

definition check_id :: "json \<Rightarrow> results \<Rightarrow> attempt" where
  "check_id config r =
     (case get_prop config ''id'' of
        Inl msg \<Rightarrow> Inl (msg, r)
      | Inr None \<Rightarrow> Inr r
      | Inr (Some v) \<Rightarrow>
          if \<not> truthy (Some v) then Inr r
          else (case to_string v of
                  None \<Rightarrow> Inl (cannot_convert, r)
                | Some s \<Rightarrow>
                    if \<not> test_anchored id_re s
                    then Inr (push_error r
                           ''Invalid ID format, use lowercase letters, numbers, hyphens, and underscores only'' 15)
                    else Inr r))"

text \<open>\<open>validCategories.includes(v)\<close> compares strictly: only a string can be in the list.\<close>

fun category_listed :: "json \<Rightarrow> bool" where
  "category_listed (JStr s) = (s \<in> set validCategories)"
| "category_listed v = False"

definition check_category :: "json \<Rightarrow> results \<Rightarrow> attempt" where
  "check_category config r =
     (case get_prop config ''category'' of
        Inl msg \<Rightarrow> Inl (msg, r)
      | Inr None \<Rightarrow> Inr r
      | Inr (Some v) \<Rightarrow>
          if truthy (Some v) \<and> \<not> category_listed v
          then (case to_string v of
                  None \<Rightarrow> Inl (cannot_convert, r)
                | Some s \<Rightarrow>
                    Inr (push_warning r
                      (''Invalid category: '' @ s @ ''. Use one of: '' @ join '', '' validCategories) 5))
          else Inr r)"

definition config_body :: "parser \<Rightarrow> dir \<Rightarrow> results \<Rightarrow> attempt" where
  "config_body parse d r =
     (case readFile d ''mercy-integration.json'' of
        Inl msg \<Rightarrow> Inl (msg, r)
      | Inr configData \<Rightarrow>
          (case parse configData of
             Inl msg \<Rightarrow> Inl (msg, r)
           | Inr config \<Rightarrow>
               and_then (and_then (and_then (check_fields config REQUIRED_CONFIG_FIELDS r)
                 (check_version config)) (check_id config)) (check_category config)))"

text \<open>The \<open>try\<close> statement of the phase, and the phase behind its guard.\<close>

definition config_checks :: "parser \<Rightarrow> dir \<Rightarrow> results \<Rightarrow> results" where
  "config_checks parse d r =
     (case config_body parse d r of
        Inl (msg, r') \<Rightarrow> push_error r' (''Invalid mercy-integration.json: '' @ msg) 25
      | Inr r' \<Rightarrow> r')"

definition validate_config :: "parser \<Rightarrow> dir \<Rightarrow> results \<Rightarrow> results" where
  "validate_config parse d r =
     (if no_error_mentions ''mercy-integration.json'' r then config_checks parse d r else r)"

subsection \<open>Package manifest\<close>

definition check_dep :: "string \<Rightarrow> results \<Rightarrow> results" where
  "check_dep dep r =
     (if dep \<notin> set allowedDeps then push_error r (''Unauthorized dependency: '' @ dep) 15 else r)"

definition check_name :: "json \<Rightarrow> results \<Rightarrow> attempt" where
  "check_name pkg r =
     (case get_prop pkg ''name'' of
        Inl msg \<Rightarrow> Inl (msg, r)
      | Inr v \<Rightarrow> Inr (if \<not> truthy v then push_warning r ''Missing package name'' 5 else r))"

definition check_package_version :: "json \<Rightarrow> results \<Rightarrow> attempt" where
  "check_package_version pkg r =
     (case get_prop pkg ''version'' of
        Inl msg \<Rightarrow> Inl (msg, r)
      | Inr v \<Rightarrow> Inr (if \<not> truthy v then push_warning r ''Missing package version'' 5 else r))"

definition check_type :: "json \<Rightarrow> results \<Rightarrow> attempt" where
  \<open>check_type pkg r =
     (case get_prop pkg ''type'' of
        Inl msg \<Rightarrow> Inl (msg, r)
      | Inr v \<Rightarrow>
          Inr (if v \<noteq> Some (JStr ''module'')
               then push_warning r ''Package should use ES modules (type: "module")'' 5
               else r))\<close>

definition check_dependencies :: "json \<Rightarrow> results \<Rightarrow> attempt" where
  "check_dependencies pkg r =
     (case get_prop pkg ''dependencies'' of
        Inl msg \<Rightarrow> Inl (msg, r)
      | Inr None \<Rightarrow> Inr r
      | Inr (Some deps) \<Rightarrow>
          Inr (if truthy (Some deps) then fold check_dep (object_keys deps) r else r))"

definition check_package :: "json \<Rightarrow> results \<Rightarrow> attempt" where
  "check_package pkg r =
     and_then (and_then (and_then (check_name pkg r) (check_package_version pkg))
       (check_type pkg)) (check_dependencies pkg)"

definition package_body :: "parser \<Rightarrow> dir \<Rightarrow> results \<Rightarrow> attempt" where
  "package_body parse d r =
     (case readFile d ''package.json'' of
        Inl msg \<Rightarrow> Inl (msg, r)
      | Inr packageData \<Rightarrow>
          (case parse packageData of
             Inl msg \<Rightarrow> Inl (msg, r)
           | Inr pkg \<Rightarrow> check_package pkg r))"

definition package_checks :: "parser \<Rightarrow> dir \<Rightarrow> results \<Rightarrow> results" where
  "package_checks parse d r =
     (case package_body parse d r of
        Inl (msg, r') \<Rightarrow> push_error r' (''Invalid package.json: '' @ msg) 20
      | Inr r' \<Rightarrow> r')"

definition validate_package :: "parser \<Rightarrow> dir \<Rightarrow> results \<Rightarrow> results" where
  "validate_package parse d r =
     (if no_error_mentions ''package.json'' r then package_checks parse d r else r)"

subsection \<open>Source security scan\<close>

definition instances :: "string \<Rightarrow> nat \<Rightarrow> string" where
  "instances msg n = msg @ '' ('' @ show_nat n @ '' instances)''"

definition apply_rule :: "string \<Rightarrow> rule \<Rightarrow> results \<Rightarrow> results" where
  "apply_rule codeData rl r =
     (let n = count_matches (pattern rl) codeData in
      if n = 0 then r
      else (case severity rl of
              Critical \<Rightarrow> push_error r (''CRITICAL: '' @ instances (message rl) n) 30
            | High \<Rightarrow> push_error r (''HIGH: '' @ instances (message rl) n) 20
            | Medium \<Rightarrow> push_warning r (''MEDIUM: '' @ instances (message rl) n) 10))"

definition check_export :: "string \<Rightarrow> results \<Rightarrow> results" where
  "check_export codeData r =
     (if \<not> str_includes codeData ''export default class''
      then push_error r ''Integration must export a default class'' 25 else r)"

definition check_onLoad :: "string \<Rightarrow> results \<Rightarrow> results" where
  "check_onLoad codeData r =
     (if \<not> str_includes codeData ''async onLoad()''
      then push_warning r ''Integration should implement onLoad() method'' 5 else r)"

definition complexity :: "string \<Rightarrow> nat" where
  "complexity codeData =
     (let lines = length (split_char (CHR 0x0A) codeData);
          functions = count_matches function_re codeData
      in lines + functions * 2)"

definition check_complexity :: "string \<Rightarrow> results \<Rightarrow> results" where
  "check_complexity codeData r =
     (if complexity codeData > 1000
      then push_warning r (''High code complexity: '' @ show_nat (complexity codeData)
                             @ '' (consider simplifying)'') 10
      else r)"

definition scan_code :: "string \<Rightarrow> results \<Rightarrow> results" where
  "scan_code codeData r =
     check_complexity codeData
       (check_onLoad codeData
         (check_export codeData
           (fold (apply_rule codeData) SECURITY_PATTERNS r)))"

definition code_checks :: "dir \<Rightarrow> results \<Rightarrow> results" where
  "code_checks d r =
     (case readFile d ''src/integration.js'' of
        Inl msg \<Rightarrow> push_error r (''Cannot read integration code: '' @ msg) 30
      | Inr codeData \<Rightarrow> scan_code codeData r)"

definition validate_code :: "dir \<Rightarrow> results \<Rightarrow> results" where
  "validate_code d r =
     (if no_error_mentions ''src/integration.js'' r then code_checks d r else r)"

subsection \<open>Additional checks and verdict\<close>

definition check_readme :: "dir \<Rightarrow> results \<Rightarrow> results" where
  "check_readme d r =
     (case readFile d ''README.md'' of
        Inl msg \<Rightarrow> r
      | Inr readme \<Rightarrow>
          if length readme < 100
          then push_warning r ''README.md is very short, consider adding more documentation'' 5
          else r)"

definition check_tests :: "dir \<Rightarrow> results \<Rightarrow> results" where
  "check_tests d r =
     (if access d ''test'' then r
      else push_warning r ''No test directory found, consider adding tests'' 5)"

definition verdict :: "results \<Rightarrow> results" where
  "verdict r = r\<lparr>isValid := (length (errors r) = 0 \<and> score r \<ge> 70)\<rparr>"

definition validateIntegration :: "parser \<Rightarrow> dir \<Rightarrow> results" where
  "validateIntegration parse d =
     verdict
       (check_tests d
         (check_readme d
           (validate_code d
             (validate_package parse d
               (validate_config parse d
                 (check_files d initial_results))))))"

text \<open>The process exits with 1 when the verdict is negative, and with 0 otherwise.\<close>

definition exit_code :: "results \<Rightarrow> nat" where
  "exit_code r = (if isValid r then 0 else 1)"

text \<open>A parser given by a table of texts and their values, for concrete directories; any other
  text is a syntax error.\<close>

definition parse_table :: "(string \<times> json) list \<Rightarrow> parser" where
  "parse_table tbl text =
     (case map_of tbl text of
        None \<Rightarrow> Inl ''Unexpected end of JSON input''
      | Some v \<Rightarrow> Inr v)"

section \<open>The scaffolder\<close>

subsection \<open>Names\<close>

definition is_alnum :: "char \<Rightarrow> bool" where
  "is_alnum c = (is_lower c \<or> is_upper c \<or> is_digit c)"

text \<open>\<open>word.charAt(0).toUpperCase() + word.slice(1).toLowerCase()\<close>\<close>

fun capitalize :: "string \<Rightarrow> string" where
  "capitalize [] = []"
| "capitalize (c # cs) = to_upper_char c # toLowerCase cs"

definition toPascalCase :: "string \<Rightarrow> string" where
  "toPascalCase str =
     join []
       (map capitalize
         (filter (\<lambda>word. length word > 0)
           (split_char CHR '' ''
             (map (\<lambda>c. if is_alnum c then c else CHR '' '') str))))"

text \<open>\<open>s.replace(/[^a-z0-9]/g, '-')\<close>: every code unit that is not a lower-case letter or a
  digit becomes a hyphen.\<close>

definition replace_non_id :: "string \<Rightarrow> string" where
  "replace_non_id s = map (\<lambda>c. if is_lower c \<or> is_digit c then c else CHR ''-'') s"

text \<open>The default offered for the id: \<open>name.toLowerCase().replace(/[^a-z0-9]/g, '-')\<close>.\<close>

definition default_id :: "string \<Rightarrow> string" where
  "default_id name = replace_non_id (toLowerCase name)"

subsection \<open>Replacing a literal pattern\<close>




subsection \<open>The integration source file, copied from the template\<close>

text \<open>
  The text of \<open>src/integration-template.js\<close>, line by line, in four parts. The three characters beyond
  code 255 (in the title of line 233) are each written as \<open>CHR 0x80\<close>, which like them is a
  single character outside every class the validator's patterns name.
\<close>









subsection \<open>The integration source file, written out\<close>


section \<open>The base class\<close>

text \<open>The settings cache is a \<open>Map\<close>; \<open>getSetting(key, defaultValue = null)\<close> is
  \<open>this.settings.get(key) || defaultValue\<close>.\<close>

definition getSetting :: "('k \<rightharpoonup> json) \<Rightarrow> 'k \<Rightarrow> json \<Rightarrow> json" where
  "getSetting settings key defaultValue =
     (case settings key of
        None \<Rightarrow> defaultValue
      | Some v \<Rightarrow> if truthy (Some v) then v else defaultValue)"

section \<open>Concrete directories\<close>

text \<open>A small integration that passes every check, used to run the validator on: the texts of
  its two JSON files and the values \<open>JSON.parse\<close> returns for them.\<close>

definition config_text :: string where
  \<open>config_text = ''{"id":"cool-bot","name":"Cool Bot","version":"1.0.0","description":"A bot","category":"utility","developer":{"name":"Dev","email":"dev@example.org"}}''\<close>

definition example_config :: json where
  "example_config =
     JObj [(''id'', JStr ''cool-bot''), (''name'', JStr ''Cool Bot''), (''version'', JStr ''1.0.0''),
           (''description'', JStr ''A bot''), (''category'', JStr ''utility''),
           (''developer'', JObj [(''name'', JStr ''Dev''), (''email'', JStr ''dev@example.org'')])]"

definition package_text :: string where
  \<open>package_text = ''{"name":"cool-bot","version":"1.0.0","type":"module","dependencies":{"axios":"^1.6.0"}}''\<close>

definition example_package :: json where
  "example_package =
     JObj [(''name'', JStr ''cool-bot''), (''version'', JStr ''1.0.0''), (''type'', JStr ''module''),
           (''dependencies'', JObj [(''axios'', JStr ''^1.6.0'')])]"

text \<open>The metadata record without its \<open>category\<close>.\<close>

definition config_text_without_category :: string where
  \<open>config_text_without_category = ''{"id":"cool-bot","name":"Cool Bot","version":"1.0.0","description":"A bot","developer":{"name":"Dev","email":"dev@example.org"}}''\<close>

definition config_without_category :: json where
  "config_without_category =
     JObj [(''id'', JStr ''cool-bot''), (''name'', JStr ''Cool Bot''), (''version'', JStr ''1.0.0''),
           (''description'', JStr ''A bot''),
           (''developer'', JObj [(''name'', JStr ''Dev''), (''email'', JStr ''dev@example.org'')])]"

text \<open>A manifest with a dependency named after the source file.\<close>

definition odd_package_text :: string where
  \<open>odd_package_text = ''{"name":"cool-bot","version":"1.0.0","type":"module","dependencies":{"src/integration.js":"^1.0.0"}}''\<close>

definition odd_package :: json where
  "odd_package =
     JObj [(''name'', JStr ''cool-bot''), (''version'', JStr ''1.0.0''), (''type'', JStr ''module''),
           (''dependencies'', JObj [(''src/integration.js'', JStr ''^1.0.0'')])]"

definition example_parse :: parser where
  "example_parse =
     parse_table [(config_text, example_config), (package_text, example_package),
                  (config_text_without_category, config_without_category),
                  (odd_package_text, odd_package)]"

definition example_source :: string where
  "example_source = ''export default class CoolBot { async onLoad() { return true; } }''"

definition example_dir :: dir where
  "example_dir =
     map_of [(''mercy-integration.json'', File config_text),
             (''package.json'', File package_text),
             (''src/integration.js'', File example_source),
             (''README.md'', File (replicate 100 CHR ''x'')),
             (''test'', Unreadable ''EISDIR: illegal operation on a directory, read'')]"


text \<open>The same directory with the record that has no category.\<close>

definition dir_without_category :: dir where
  "dir_without_category =
     example_dir(''mercy-integration.json'' \<mapsto> File config_text_without_category)"

text \<open>The same directory with the odd manifest, and then also with a source file that calls
  \<open>eval\<close>.\<close>

definition odd_dir :: dir where
  "odd_dir = example_dir(''package.json'' \<mapsto> File odd_package_text)"

definition eval_dir :: dir where
  "eval_dir = odd_dir(''src/integration.js'' \<mapsto> File ''eval(x)'')"

text \<open>A directory with nothing but a source file that trips seven rules.\<close>

definition hostile_dir :: dir where
  "hostile_dir =
     map_of [(''src/integration.js'',
              File ''process.env eval( x.exec( x.spawn( fs.writeFile fs.unlink fs.rmdir'')]"

text \<open>A source file in which one critical rule matches three times, one high rule twice and
  one medium rule once, and the directory that holds it.\<close>

definition sample_source :: string where
  "sample_source = ''eval(a); eval (b); eval(c); x.exec(1); y.exec(2); while (true) {}''"

definition sample_dir :: dir where
  "sample_dir = example_dir(''src/integration.js'' \<mapsto> File sample_source)"

section \<open>Notions used in the statements\<close>

text \<open>The result before the source phase, and the results after each phase that can report
  an error.\<close>

definition before_code :: "parser \<Rightarrow> dir \<Rightarrow> results" where
  "before_code parse d =
     validate_package parse d (validate_config parse d (check_files d initial_results))"

definition stages :: "parser \<Rightarrow> dir \<Rightarrow> results list" where
  "stages parse d =
     [check_files d initial_results,
      validate_config parse d (check_files d initial_results),
      before_code parse d,
      validate_code d (before_code parse d)]"


text \<open>\<open>shift E W P\<close> appends the errors \<open>E\<close> and the warnings \<open>W\<close> and takes \<open>P\<close> off the
  score. A step \<open>appends\<close> when it is such a shift with \<open>P \<ge> 0\<close>, whatever the result it starts
  from; a block that may throw \<open>appends_try\<close> when it is such a shift and either always
  completes or always throws the same exception.\<close>

definition shift :: "string list \<Rightarrow> string list \<Rightarrow> int \<Rightarrow> results \<Rightarrow> results" where
  "shift E W P r = r\<lparr>errors := errors r @ E, warnings := warnings r @ W, score := score r - P\<rparr>"

definition appends :: "(results \<Rightarrow> results) \<Rightarrow> bool" where
  "appends f \<longleftrightarrow> (\<exists>E W P. 0 \<le> P \<and> (\<forall>r. f r = shift E W P r))"

definition appends_try :: "(results \<Rightarrow> attempt) \<Rightarrow> bool" where
  "appends_try f \<longleftrightarrow>
     (\<exists>E W P. 0 \<le> P \<and>
        ((\<forall>r. f r = Inr (shift E W P r)) \<or> (\<exists>msg. \<forall>r. f r = Inl (msg, shift E W P r))))"

text \<open>
  What the loop over the rule table comes to for a source text. The rules that fire are those
  with at least one match, in the order of the table; a rule that fires is charged by its
  severity alone, and its entry names the severity, the message and the number of matches.
\<close>

definition fired :: "string \<Rightarrow> rule list" where
  "fired codeData = filter (\<lambda>rl. count_matches (pattern rl) codeData > 0) SECURITY_PATTERNS"

definition penalty :: "severity \<Rightarrow> int" where
  "penalty s = (case s of Critical \<Rightarrow> 30 | High \<Rightarrow> 20 | Medium \<Rightarrow> 10)"

definition finding :: "string \<Rightarrow> rule \<Rightarrow> string" where
  "finding codeData rl =
     (case severity rl of Critical \<Rightarrow> ''CRITICAL: '' | High \<Rightarrow> ''HIGH: '' | Medium \<Rightarrow> ''MEDIUM: '')
       @ message rl @ '' ('' @ show_nat (count_matches (pattern rl) codeData) @ '' instances)''"

text \<open>\<open>grows r r'\<close>: from \<open>r\<close> to \<open>r'\<close> the score has not gone up and both lists have only been
  appended to.\<close>

definition grows :: "results \<Rightarrow> results \<Rightarrow> bool" where
  "grows r r' \<longleftrightarrow>
     score r' \<le> score r \<and> prefix (errors r) (errors r') \<and> prefix (warnings r) (warnings r')"

text \<open>
  The PascalCase transform in the words of the specification: every run of non-alphanumeric
  characters becomes a single space, the text is split on spaces, empty tokens are dropped,
  every token gets its first character upper-cased and the rest lower-cased, and the tokens are
  concatenated with no separator.
\<close>

function replace_runs :: "string \<Rightarrow> string" where
  "replace_runs [] = []"
| "replace_runs (x # xs) =
     (if is_alnum x then x # replace_runs xs
      else CHR '' '' # replace_runs (dropWhile (\<lambda>c. \<not> is_alnum c) xs))"
  by pat_completeness auto
termination
  by (relation "measure length") (auto simp: less_Suc_eq_le length_dropWhile_le)

definition toPascalCase_spec :: "string \<Rightarrow> string" where
  "toPascalCase_spec str =
     join [] (map capitalize (filter (\<lambda>w. w \<noteq> []) (split_char CHR '' '' (replace_runs str))))"

text \<open>The text with a space for every other character, and the non-empty pieces between
  spaces.\<close>

abbreviation (input) blank :: "string \<Rightarrow> string" where
  "blank s \<equiv> map (\<lambda>c. if is_alnum c then c else CHR '' '') s"

abbreviation (input) tokens :: "string \<Rightarrow> string list" where
  "tokens s \<equiv> filter (\<lambda>w. w \<noteq> []) (split_char CHR '' '' s)"

text \<open>A settings cache for a concrete run of \<open>getSetting\<close>.\<close>

definition example_settings :: "string \<rightharpoonup> json" where
  "example_settings = map_of [(''enabled'', JBool False), (''prefix'', JStr ''!'')]"

text \<open>\<open>one_more_error m p r r'\<close>: the result \<open>r\<close> is \<open>r'\<close> with the error \<open>m\<close> inserted and \<open>p\<close>
  points less.\<close>

definition one_more_error :: "string \<Rightarrow> int \<Rightarrow> results \<Rightarrow> results \<Rightarrow> bool" where
  "one_more_error m p r r' \<longleftrightarrow>
     (\<exists>A B. errors r = A @ [m] @ B \<and> errors r' = A @ B)
     \<and> warnings r = warnings r' \<and> score r = score r' - p"




section \<open>Every step only appends and only takes points off\<close>

lemma shift_shift: "shift E' W' P' (shift E W P r) = shift (E @ E') (W @ W') (P + P') r"
  by (simp add: shift_def)

lemma shift_nil: "shift [] [] 0 r = r"
  by (simp add: shift_def)

lemma push_error_shift: "push_error r e p = shift [e] [] p r"
  by (simp add: push_error_def shift_def)

lemma push_warning_shift: "push_warning r w p = shift [] [w] p r"
  by (simp add: push_warning_def shift_def)

lemma appendsI: "0 \<le> P \<Longrightarrow> (\<And>r. f r = shift E W P r) \<Longrightarrow> appends f"
  unfolding appends_def by blast

lemma appends_id: "appends (\<lambda>r. r)"
  by (rule appendsI [of 0 _ "[]" "[]"]) (simp_all add: shift_nil)

lemma appends_push_error: "0 \<le> p \<Longrightarrow> appends (\<lambda>r. push_error r e p)"
  by (rule appendsI [of p _ "[e]" "[]"]) (simp_all add: push_error_shift)

lemma appends_push_warning: "0 \<le> p \<Longrightarrow> appends (\<lambda>r. push_warning r w p)"
  by (rule appendsI [of p _ "[]" "[w]"]) (simp_all add: push_warning_shift)

lemma appends_comp:
  assumes "appends f" and "appends g"
  shows "appends (\<lambda>r. g (f r))"
proof -
  from assms(1) obtain E W P where f: "0 \<le> P" "\<And>r. f r = shift E W P r"
    unfolding appends_def by blast
  from assms(2) obtain E' W' P' where g: "0 \<le> P'" "\<And>r. g r = shift E' W' P' r"
    unfolding appends_def by blast
  show ?thesis
  proof (rule appendsI)
    show "0 \<le> P + P'" using f(1) g(1) by simp
    show "g (f r) = shift (E @ E') (W @ W') (P + P') r" for r
      by (simp add: f(2) g(2) shift_shift)
  qed
qed

lemma appends_if: "appends f \<Longrightarrow> appends g \<Longrightarrow> appends (\<lambda>r. if b then f r else g r)"
  by (cases b) simp_all

lemma appends_case_sum:
  "(\<And>x. appends (f x)) \<Longrightarrow> (\<And>y. appends (g y)) \<Longrightarrow>
   appends (\<lambda>r. case s of Inl x \<Rightarrow> f x r | Inr y \<Rightarrow> g y r)"
  by (cases s) simp_all

lemma appends_case_option:
  "appends f \<Longrightarrow> (\<And>y. appends (g y)) \<Longrightarrow>
   appends (\<lambda>r. case s of None \<Rightarrow> f r | Some y \<Rightarrow> g y r)"
  by (cases s) simp_all

lemma appends_case_severity:
  "appends f \<Longrightarrow> appends g \<Longrightarrow> appends h \<Longrightarrow>
   appends (\<lambda>r. case s of Critical \<Rightarrow> f r | High \<Rightarrow> g r | Medium \<Rightarrow> h r)"
  by (cases s) simp_all

lemma appends_fold:
  assumes "\<And>x. x \<in> set xs \<Longrightarrow> appends (f x)"
  shows "appends (fold f xs)"
  using assms
proof (induction xs)
  case Nil
  show ?case using appends_id by (simp add: id_def)
next
  case (Cons x xs)
  have "appends (\<lambda>r. fold f xs (f x r))"
    by (rule appends_comp) (simp_all add: Cons)
  then show ?case by (simp add: comp_def)
qed

lemma appends_tryI1: "0 \<le> P \<Longrightarrow> (\<And>r. f r = Inr (shift E W P r)) \<Longrightarrow> appends_try f"
  unfolding appends_try_def by blast

lemma appends_tryI2: "0 \<le> P \<Longrightarrow> (\<And>r. f r = Inl (msg, shift E W P r)) \<Longrightarrow> appends_try f"
  unfolding appends_try_def by blast

lemma appends_try_Inr: "appends f \<Longrightarrow> appends_try (\<lambda>r. Inr (f r))"
  unfolding appends_def appends_try_def by blast

lemma appends_try_Inl: "appends f \<Longrightarrow> appends_try (\<lambda>r. Inl (msg, f r))"
  unfolding appends_def appends_try_def by blast

lemma appends_try_throw: "appends_try (\<lambda>r. Inl (msg, r))"
  by (rule appends_try_Inl [OF appends_id])

lemma appends_try_done: "appends_try (\<lambda>r. Inr r)"
  by (rule appends_try_Inr [OF appends_id])

lemma appends_try_if:
  "appends_try f \<Longrightarrow> appends_try g \<Longrightarrow> appends_try (\<lambda>r. if b then f r else g r)"
  by (cases b) simp_all

lemma appends_try_case_sum:
  "(\<And>x. appends_try (f x)) \<Longrightarrow> (\<And>y. appends_try (g y)) \<Longrightarrow>
   appends_try (\<lambda>r. case s of Inl x \<Rightarrow> f x r | Inr y \<Rightarrow> g y r)"
  by (cases s) simp_all

lemma appends_try_case_option:
  "appends_try f \<Longrightarrow> (\<And>y. appends_try (g y)) \<Longrightarrow>
   appends_try (\<lambda>r. case s of None \<Rightarrow> f r | Some y \<Rightarrow> g y r)"
  by (cases s) simp_all

lemma appends_try_after:
  assumes "appends f" and "appends_try g"
  shows "appends_try (\<lambda>r. g (f r))"
proof -
  from assms(1) obtain E W P where f: "0 \<le> P" "\<And>r. f r = shift E W P r"
    unfolding appends_def by blast
  from assms(2) obtain E' W' P' where g: "0 \<le> P'"
    "(\<forall>r. g r = Inr (shift E' W' P' r)) \<or> (\<exists>msg. \<forall>r. g r = Inl (msg, shift E' W' P' r))"
    unfolding appends_try_def by blast
  from g(2) show ?thesis
  proof
    assume "\<forall>r. g r = Inr (shift E' W' P' r)"
    then have "\<And>r. g (f r) = Inr (shift (E @ E') (W @ W') (P + P') r)"
      by (simp add: f(2) shift_shift)
    then show ?thesis using f(1) g(1) by (intro appends_tryI1 [of "P + P'"]) simp_all
  next
    assume "\<exists>msg. \<forall>r. g r = Inl (msg, shift E' W' P' r)"
    then obtain msg where "\<And>r. g (f r) = Inl (msg, shift (E @ E') (W @ W') (P + P') r)"
      by (auto simp: f(2) shift_shift)
    then show ?thesis using f(1) g(1) by (intro appends_tryI2 [of "P + P'"]) simp_all
  qed
qed

lemma appends_try_and_then:
  assumes "appends_try f" and "appends_try g"
  shows "appends_try (\<lambda>r. and_then (f r) g)"
proof -
  from assms(1) obtain E W P where f: "0 \<le> P"
    "(\<forall>r. f r = Inr (shift E W P r)) \<or> (\<exists>msg. \<forall>r. f r = Inl (msg, shift E W P r))"
    unfolding appends_try_def by blast
  from f(2) show ?thesis
  proof
    assume a: "\<forall>r. f r = Inr (shift E W P r)"
    have "appends (shift E W P)" using f(1) by (intro appendsI [of P]) simp_all
    then have "appends_try (\<lambda>r. g (shift E W P r))" using assms(2) by (rule appends_try_after)
    then show ?thesis using a by (simp add: and_then_def)
  next
    assume "\<exists>msg. \<forall>r. f r = Inl (msg, shift E W P r)"
    then obtain msg where "\<And>r. and_then (f r) g = Inl (msg, shift E W P r)"
      by (auto simp: and_then_def)
    then show ?thesis using f(1) by (intro appends_tryI2 [of P]) simp_all
  qed
qed

lemma appends_catch:
  assumes "appends_try f" and "0 \<le> p"
  shows "appends (\<lambda>r. case f r of Inl (msg, r') \<Rightarrow> push_error r' (pre @ msg) p | Inr r' \<Rightarrow> r')"
proof -
  from assms(1) obtain E W P where f: "0 \<le> P"
    "(\<forall>r. f r = Inr (shift E W P r)) \<or> (\<exists>msg. \<forall>r. f r = Inl (msg, shift E W P r))"
    unfolding appends_try_def by blast
  from f(2) show ?thesis
  proof
    assume "\<forall>r. f r = Inr (shift E W P r)"
    then show ?thesis using f(1) by (intro appendsI [of P _ E W]) simp_all
  next
    assume "\<exists>msg. \<forall>r. f r = Inl (msg, shift E W P r)"
    then obtain msg where m: "\<And>r. f r = Inl (msg, shift E W P r)" by blast
    show ?thesis
      using f(1) assms(2)
      by (intro appendsI [of "P + p" _ "E @ [pre @ msg]" "W @ []"])
         (simp_all add: m push_error_shift shift_shift)
  qed
qed

lemmas appends_intros =
  appends_if appends_id appends_case_sum appends_case_option appends_case_severity

lemmas appends_try_intros =
  appends_try_if appends_try_throw appends_try_done appends_try_case_sum appends_try_case_option

lemma appends_check_file: "appends (check_file d file)"
  unfolding check_file_def [abs_def]
  by (intro appends_intros appends_push_error) simp

lemma appends_check_files: "appends (check_files d)"
  unfolding check_files_def [abs_def]
  by (intro appends_fold appends_check_file)

lemma appends_try_check_fields: "appends_try (check_fields config fs)"
proof (induction fs)
  case Nil
  show ?case using appends_try_done by simp
next
  case (Cons f fs)
  have "appends (\<lambda>r. if \<not> truthy v
                      then push_error r (''Missing required config field: '' @ f) 10 else r)" for v
    by (intro appends_intros appends_push_error) simp
  then have "appends_try (\<lambda>r. check_fields config fs
     (if \<not> truthy v then push_error r (''Missing required config field: '' @ f) 10 else r))" for v
    using Cons.IH by (rule appends_try_after)
  then have "appends_try (\<lambda>r. check_fields config (f # fs) r)"
    unfolding check_fields.simps
    by (intro appends_try_intros)
  then show ?case .
qed

lemma appends_try_check_version: "appends_try (check_version config)"
  unfolding check_version_def [abs_def]
  by (intro appends_try_intros appends_try_Inr appends_push_warning) simp

lemma appends_try_check_id: "appends_try (check_id config)"
  unfolding check_id_def [abs_def]
  by (intro appends_try_intros appends_try_Inr appends_push_error) simp

lemma appends_try_check_category: "appends_try (check_category config)"
  unfolding check_category_def [abs_def]
  by (intro appends_try_intros appends_try_Inr appends_push_warning) simp

lemma appends_try_config_body: "appends_try (config_body parse d)"
  unfolding config_body_def [abs_def]
  by (intro appends_try_intros appends_try_and_then appends_try_check_fields
        appends_try_check_version appends_try_check_id appends_try_check_category)

lemma appends_config_checks: "appends (config_checks parse d)"
  unfolding config_checks_def [abs_def]
  by (rule appends_catch [OF appends_try_config_body]) simp

lemma appends_check_dep: "appends (check_dep dep)"
  unfolding check_dep_def [abs_def]
  by (intro appends_intros appends_push_error) simp

lemma appends_try_check_name: "appends_try (check_name pkg)"
  unfolding check_name_def [abs_def]
  by (intro appends_try_case_sum appends_try_throw appends_try_Inr appends_if appends_id
        appends_push_warning) simp

lemma appends_try_check_package_version: "appends_try (check_package_version pkg)"
  unfolding check_package_version_def [abs_def]
  by (intro appends_try_case_sum appends_try_throw appends_try_Inr appends_if appends_id
        appends_push_warning) simp

lemma appends_try_check_type: "appends_try (check_type pkg)"
  unfolding check_type_def [abs_def]
  by (intro appends_try_case_sum appends_try_throw appends_try_Inr appends_if appends_id
        appends_push_warning) simp

lemma appends_try_check_dependencies: "appends_try (check_dependencies pkg)"
proof -
  have "appends (fold check_dep ks)" for ks
    by (rule appends_fold) (rule appends_check_dep)
  then have "appends (\<lambda>r. if b then fold check_dep ks r else r)" for b ks
    by (intro appends_if appends_id)
  then show ?thesis
    unfolding check_dependencies_def [abs_def]
    by (intro appends_try_case_sum appends_try_case_option appends_try_throw appends_try_done
          appends_try_Inr)
qed

lemma appends_try_check_package: "appends_try (check_package pkg)"
  unfolding check_package_def [abs_def]
  by (intro appends_try_and_then appends_try_check_name appends_try_check_package_version
        appends_try_check_type appends_try_check_dependencies)

lemma appends_try_package_body: "appends_try (package_body parse d)"
  unfolding package_body_def [abs_def]
  by (intro appends_try_intros appends_try_check_package)

lemma appends_package_checks: "appends (package_checks parse d)"
  unfolding package_checks_def [abs_def]
  by (rule appends_catch [OF appends_try_package_body]) simp

lemma appends_apply_rule: "appends (apply_rule codeData rl)"
  unfolding apply_rule_def [abs_def] Let_def
  by (intro appends_intros appends_push_error appends_push_warning) simp_all

lemma appends_check_export: "appends (check_export codeData)"
  unfolding check_export_def [abs_def]
  by (intro appends_intros appends_push_error) simp

lemma appends_check_onLoad: "appends (check_onLoad codeData)"
  unfolding check_onLoad_def [abs_def]
  by (intro appends_intros appends_push_warning) simp

lemma appends_check_complexity: "appends (check_complexity codeData)"
  unfolding check_complexity_def [abs_def]
  by (intro appends_intros appends_push_warning) simp

lemma appends_scan_code: "appends (scan_code codeData)"
proof -
  have 1: "appends (fold (apply_rule codeData) SECURITY_PATTERNS)"
    by (rule appends_fold) (rule appends_apply_rule)
  have 2: "appends (\<lambda>r. check_export codeData (fold (apply_rule codeData) SECURITY_PATTERNS r))"
    by (rule appends_comp [OF 1 appends_check_export])
  have 3: "appends (\<lambda>r. check_onLoad codeData
             (check_export codeData (fold (apply_rule codeData) SECURITY_PATTERNS r)))"
    by (rule appends_comp [OF 2 appends_check_onLoad])
  show ?thesis
    unfolding scan_code_def [abs_def]
    by (rule appends_comp [OF 3 appends_check_complexity])
qed

lemma appends_code_checks: "appends (code_checks d)"
  unfolding code_checks_def [abs_def]
  by (intro appends_intros appends_push_error appends_scan_code) simp

lemma appends_check_readme: "appends (check_readme d)"
  unfolding check_readme_def [abs_def]
  by (intro appends_intros appends_push_warning) simp

lemma appends_check_tests: "appends (check_tests d)"
  unfolding check_tests_def [abs_def]
  by (intro appends_intros appends_push_warning) simp

lemma appends_grows: "appends f \<Longrightarrow> grows r (f r)"
  unfolding appends_def grows_def by (auto simp: shift_def)

lemma grows_refl: "grows r r"
  by (simp add: grows_def)

lemma grows_trans: "grows a b \<Longrightarrow> grows b c \<Longrightarrow> grows a c"
  unfolding grows_def by (auto intro: prefix_order.trans)

lemma grows_check_files: "grows r (check_files d r)"
  by (rule appends_grows [OF appends_check_files])

lemma grows_validate_config: "grows r (validate_config parse d r)"
  by (simp add: validate_config_def grows_refl appends_grows [OF appends_config_checks])

lemma grows_validate_package: "grows r (validate_package parse d r)"
  by (simp add: validate_package_def grows_refl appends_grows [OF appends_package_checks])

lemma grows_validate_code: "grows r (validate_code d r)"
  by (simp add: validate_code_def grows_refl appends_grows [OF appends_code_checks])

lemma grows_check_readme: "grows r (check_readme d r)"
  by (rule appends_grows [OF appends_check_readme])

lemma grows_check_tests: "grows r (check_tests d r)"
  by (rule appends_grows [OF appends_check_tests])

lemma grows_verdict: "grows r (verdict r)"
  by (simp add: grows_def verdict_def)

lemma grows_errors: "grows r r' \<Longrightarrow> errors r \<noteq> [] \<Longrightarrow> errors r' \<noteq> []"
  by (auto simp: grows_def)

section \<open>The run as a chain of growing results\<close>


lemma grows_before_code: "grows (check_files d initial_results) (before_code parse d)"
  unfolding before_code_def
  by (rule grows_trans [OF grows_validate_config grows_validate_package])

lemma grows_tail:
  "grows (validate_code d r) (verdict (check_tests d (check_readme d (validate_code d r))))"
  by (rule grows_trans [OF grows_check_readme grows_trans [OF grows_check_tests grows_verdict]])

lemma validateIntegration_before_code:
  "validateIntegration parse d =
     verdict (check_tests d (check_readme d (validate_code d (before_code parse d))))"
  by (simp add: validateIntegration_def before_code_def)

lemma stage_grows:
  assumes "r \<in> set (stages parse d)"
  shows "grows r (validateIntegration parse d)"
proof -
  let ?r1 = "check_files d initial_results"
  let ?r2 = "validate_config parse d ?r1"
  let ?r3 = "before_code parse d"
  let ?r4 = "validate_code d ?r3"
  have 4: "grows ?r4 (validateIntegration parse d)"
    unfolding validateIntegration_before_code by (rule grows_tail)
  have 3: "grows ?r3 (validateIntegration parse d)"
    by (rule grows_trans [OF grows_validate_code 4])
  have "grows ?r2 ?r3"
    unfolding before_code_def by (rule grows_validate_package)
  then have 2: "grows ?r2 (validateIntegration parse d)"
    using 3 by (rule grows_trans)
  have 1: "grows ?r1 (validateIntegration parse d)"
    by (rule grows_trans [OF grows_validate_config 2])
  from assms 1 2 3 4 show ?thesis by (auto simp: stages_def)
qed

lemma isValid_validateIntegration:
  "isValid (validateIntegration parse d) =
     (length (errors (validateIntegration parse d)) = 0 \<and> score (validateIntegration parse d) \<ge> 70)"
  by (simp add: validateIntegration_def verdict_def)

lemma odd_run:
  "validateIntegration example_parse odd_dir =
     \<lparr>errors = [''Unauthorized dependency: src/integration.js''], warnings = [],
      score = 85, isValid = False\<rparr>"
  by code_simp

section \<open>The loops, entry by entry\<close>

lemma apply_rule_cases:
  "apply_rule codeData rl r =
     (if count_matches (pattern rl) codeData = 0 then r
      else if severity rl = Medium then push_warning r (finding codeData rl) (penalty (severity rl))
      else push_error r (finding codeData rl) (penalty (severity rl)))"
  by (cases "severity rl")
     (simp_all add: apply_rule_def Let_def finding_def penalty_def instances_def)

lemma rules_loop:
  "fold (apply_rule codeData) rules r =
     shift (map (finding codeData)
              (filter (\<lambda>rl. severity rl \<noteq> Medium)
                 (filter (\<lambda>rl. count_matches (pattern rl) codeData > 0) rules)))
           (map (finding codeData)
              (filter (\<lambda>rl. severity rl = Medium)
                 (filter (\<lambda>rl. count_matches (pattern rl) codeData > 0) rules)))
           (sum_list (map (\<lambda>rl. penalty (severity rl))
                 (filter (\<lambda>rl. count_matches (pattern rl) codeData > 0) rules))) r"
proof (induction rules arbitrary: r)
  case Nil
  show ?case by (simp add: shift_nil)
next
  case (Cons rl rules)
  have step: "fold (apply_rule codeData) (rl # rules) r
      = fold (apply_rule codeData) rules (apply_rule codeData rl r)"
    by simp
  show ?case
    unfolding step Cons
    by (cases "count_matches (pattern rl) codeData = 0"; cases "severity rl = Medium")
       (simp_all add: apply_rule_cases [of codeData rl r] push_error_shift push_warning_shift
          shift_shift)
qed

lemma rules_loop_table:
  "fold (apply_rule codeData) SECURITY_PATTERNS r =
     shift (map (finding codeData) (filter (\<lambda>rl. severity rl \<noteq> Medium) (fired codeData)))
           (map (finding codeData) (filter (\<lambda>rl. severity rl = Medium) (fired codeData)))
           (sum_list (map (\<lambda>rl. penalty (severity rl)) (fired codeData))) r"
  unfolding fired_def by (rule rules_loop)

lemma validate_code_scans:
  assumes "no_error_mentions ''src/integration.js'' r"
    and "d ''src/integration.js'' = Some (File codeData)"
  shows "validate_code d r = scan_code codeData r"
  using assms by (simp add: validate_code_def code_checks_def readFile_def)






lemma appends_fresh:
  assumes "appends f"
  shows "f r = shift (errors (f initial_results)) (warnings (f initial_results))
                 (100 - score (f initial_results)) r"
proof -
  from assms obtain E W P where f: "\<And>r. f r = shift E W P r"
    unfolding appends_def by blast
  have "errors (f initial_results) = E" "warnings (f initial_results) = W"
    "100 - score (f initial_results) = P"
    by (simp_all add: f shift_def initial_results_def)
  then show ?thesis by (simp add: f)
qed



lemma guarded_score:
  assumes "appends f"
  shows "score (if g then f r else r) = score r - (if g then 100 - score (f initial_results) else 0)"
  using appends_fresh [OF assms, of r] by (simp add: shift_def)





section \<open>Properties of the validator\<close>

text \<open>
  Claim C1. For every run, the verdict is \<open>isValid = (errors.length == 0) AND (score >= 70)\<close>.
  An error appended by any phase is still there at the end, so the verdict is negative whatever
  the score. The score has no floor: the run on \<open>hostile_dir\<close> ends at -155.
\<close>

theorem final_verdict:
  "isValid (validateIntegration parse d) =
     (length (errors (validateIntegration parse d)) = 0 \<and> score (validateIntegration parse d) \<ge> 70)
   \<and> (\<forall>r \<in> set (stages parse d). errors r \<noteq> [] \<longrightarrow> \<not> isValid (validateIntegration parse d))
   \<and> (errors (validateIntegration parse d) \<noteq> [] \<longrightarrow> \<not> isValid (validateIntegration parse d))
   \<and> score (validateIntegration (parse_table []) hostile_dir) = - 155"
proof (intro conjI ballI impI)
  show "isValid (validateIntegration parse d) =
     (length (errors (validateIntegration parse d)) = 0 \<and> score (validateIntegration parse d) \<ge> 70)"
    by (rule isValid_validateIntegration)
next
  fix r assume "r \<in> set (stages parse d)" and "errors r \<noteq> []"
  then have "errors (validateIntegration parse d) \<noteq> []"
    using stage_grows grows_errors by blast
  then show "\<not> isValid (validateIntegration parse d)"
    by (simp add: isValid_validateIntegration)
next
  assume "errors (validateIntegration parse d) \<noteq> []"
  then show "\<not> isValid (validateIntegration parse d)"
    by (simp add: isValid_validateIntegration)
next
  show "score (validateIntegration (parse_table []) hostile_dir) = - 155"
    by code_simp
qed

theorem final_verdict_witness:
  "check_files odd_dir initial_results \<in> set (stages example_parse odd_dir)
   \<and> score (validateIntegration example_parse odd_dir) = 85
   \<and> errors (validateIntegration example_parse odd_dir) \<noteq> []
   \<and> \<not> isValid (validateIntegration example_parse odd_dir)"
  using final_verdict [of example_parse odd_dir]
  by (simp add: odd_run stages_def)

text \<open>
  Claim C8. A run starts from score 100 and empty lists; each phase, from any result, leaves
  the score where it was or lower and only appends to the errors and to the warnings; so the
  final score is at most 100.
\<close>

theorem score_only_decremented:
  "initial_results = \<lparr>errors = [], warnings = [], score = 100, isValid = True\<rparr>
   \<and> grows r (check_files d r)
   \<and> grows r (validate_config parse d r)
   \<and> grows r (validate_package parse d r)
   \<and> grows r (validate_code d r)
   \<and> grows r (check_readme d r)
   \<and> grows r (check_tests d r)
   \<and> grows r (verdict r)
   \<and> grows initial_results (validateIntegration parse d)
   \<and> score (validateIntegration parse d) \<le> 100"
proof -
  have "grows initial_results (check_files d initial_results)"
    by (rule grows_check_files)
  moreover have "grows (check_files d initial_results) (validateIntegration parse d)"
    by (rule stage_grows) (simp add: stages_def)
  ultimately have g: "grows initial_results (validateIntegration parse d)"
    by (rule grows_trans)
  then have "score (validateIntegration parse d) \<le> 100"
    by (simp add: grows_def initial_results_def)
  with g show ?thesis
    by (simp add: initial_results_def [symmetric] grows_check_files grows_validate_config
          grows_validate_package grows_validate_code grows_check_readme grows_check_tests
          grows_verdict)
qed

theorem score_only_decremented_witness:
  "score (validateIntegration (parse_table []) hostile_dir) \<le> 100
   \<and> grows initial_results (validateIntegration (parse_table []) hostile_dir)
   \<and> grows initial_results (check_files hostile_dir initial_results)"
  using score_only_decremented [of initial_results hostile_dir "parse_table []"]
  by simp

text \<open>
  Claim C2. The rule table has 15 entries: five critical, five high, five medium. The scan
  applies the rules in the order of the table. A rule without a match leaves the result as it
  is; a rule with at least one match is charged once, however many matches there are: critical
  and high append one error and take 30 and 20, medium appends one warning and takes 10. So the
  loop over the table appends one error for every critical or high rule that fires and one
  warning for every medium rule that fires, and takes the sum of their penalties; the number of
  matches only shows in the text of the entry. The scan is this loop followed by the checks of
  the two markers and of the complexity, and it is what the source phase does whenever its guard
  holds and the source file can be read.
\<close>

theorem rule_penalty_once:
  "length SECURITY_PATTERNS = 15
   \<and> map severity SECURITY_PATTERNS = replicate 5 Critical @ replicate 5 High @ replicate 5 Medium
   \<and> apply_rule codeData rl r =
       (if count_matches (pattern rl) codeData = 0 then r
        else if severity rl = Medium
        then push_warning r (finding codeData rl) (penalty (severity rl))
        else push_error r (finding codeData rl) (penalty (severity rl)))
   \<and> fold (apply_rule codeData) SECURITY_PATTERNS r =
       shift (map (finding codeData) (filter (\<lambda>rl. severity rl \<noteq> Medium) (fired codeData)))
             (map (finding codeData) (filter (\<lambda>rl. severity rl = Medium) (fired codeData)))
             (sum_list (map (\<lambda>rl. penalty (severity rl)) (fired codeData))) r
   \<and> scan_code codeData r =
       check_complexity codeData (check_onLoad codeData (check_export codeData
         (shift (map (finding codeData) (filter (\<lambda>rl. severity rl \<noteq> Medium) (fired codeData)))
                (map (finding codeData) (filter (\<lambda>rl. severity rl = Medium) (fired codeData)))
                (sum_list (map (\<lambda>rl. penalty (severity rl)) (fired codeData))) r)))
   \<and> (no_error_mentions ''src/integration.js'' r \<and> d ''src/integration.js'' = Some (File codeData)
        \<longrightarrow> validate_code d r = scan_code codeData r)"
proof (intro conjI impI)
  show "length SECURITY_PATTERNS = 15"
    by (simp add: SECURITY_PATTERNS_def)
  show "map severity SECURITY_PATTERNS = replicate 5 Critical @ replicate 5 High @ replicate 5 Medium"
    by (simp add: SECURITY_PATTERNS_def mk_rule_def numeral_eq_Suc)
  show "apply_rule codeData rl r =
       (if count_matches (pattern rl) codeData = 0 then r
        else if severity rl = Medium
        then push_warning r (finding codeData rl) (penalty (severity rl))
        else push_error r (finding codeData rl) (penalty (severity rl)))"
    by (rule apply_rule_cases)
  show "fold (apply_rule codeData) SECURITY_PATTERNS r =
       shift (map (finding codeData) (filter (\<lambda>rl. severity rl \<noteq> Medium) (fired codeData)))
             (map (finding codeData) (filter (\<lambda>rl. severity rl = Medium) (fired codeData)))
             (sum_list (map (\<lambda>rl. penalty (severity rl)) (fired codeData))) r"
    by (rule rules_loop_table)
  show "scan_code codeData r =
       check_complexity codeData (check_onLoad codeData (check_export codeData
         (shift (map (finding codeData) (filter (\<lambda>rl. severity rl \<noteq> Medium) (fired codeData)))
                (map (finding codeData) (filter (\<lambda>rl. severity rl = Medium) (fired codeData)))
                (sum_list (map (\<lambda>rl. penalty (severity rl)) (fired codeData))) r)))"
    by (simp only: scan_code_def rules_loop_table)
next
  assume "no_error_mentions ''src/integration.js'' r \<and> d ''src/integration.js'' = Some (File codeData)"
  then show "validate_code d r = scan_code codeData r"
    using validate_code_scans by blast
qed

theorem rule_penalty_once_witness:
  "no_error_mentions ''src/integration.js'' initial_results
   \<and> sample_dir ''src/integration.js'' = Some (File sample_source)
   \<and> map (\<lambda>rl. count_matches (pattern rl) sample_source) SECURITY_PATTERNS
       = [0, 0, 0, 3, 0, 2, 0, 0, 0, 0, 0, 0, 0, 1, 0]
   \<and> map (finding sample_source) (fired sample_source)
       = [''CRITICAL: Code evaluation forbidden (3 instances)'',
          ''HIGH: Process execution forbidden (2 instances)'',
          ''MEDIUM: Infinite loops detected (1 instances)'']
   \<and> map (\<lambda>rl. penalty (severity rl)) (fired sample_source) = [30, 20, 10]
   \<and> fold (apply_rule sample_source) SECURITY_PATTERNS initial_results =
       \<lparr>errors = [''CRITICAL: Code evaluation forbidden (3 instances)'',
                  ''HIGH: Process execution forbidden (2 instances)''],
        warnings = [''MEDIUM: Infinite loops detected (1 instances)''],
        score = 40, isValid = True\<rparr>
   \<and> validate_code sample_dir initial_results =
       \<lparr>errors = [''CRITICAL: Code evaluation forbidden (3 instances)'',
                  ''HIGH: Process execution forbidden (2 instances)'',
                  ''Integration must export a default class''],
        warnings = [''MEDIUM: Infinite loops detected (1 instances)'',
                    ''Integration should implement onLoad() method''],
        score = 10, isValid = True\<rparr>"
proof -
  have g: "no_error_mentions ''src/integration.js'' initial_results"
    by (simp add: no_error_mentions_def initial_results_def)
  have f: "sample_dir ''src/integration.js'' = Some (File sample_source)"
    by (simp add: sample_dir_def)
  have c: "map (\<lambda>rl. count_matches (pattern rl) sample_source) SECURITY_PATTERNS
       = [0, 0, 0, 3, 0, 2, 0, 0, 0, 0, 0, 0, 0, 1, 0]"
    by code_simp
  have m: "map (finding sample_source) (fired sample_source)
       = [''CRITICAL: Code evaluation forbidden (3 instances)'',
          ''HIGH: Process execution forbidden (2 instances)'',
          ''MEDIUM: Infinite loops detected (1 instances)'']"
    by code_simp
  have p: "map (\<lambda>rl. penalty (severity rl)) (fired sample_source) = [30, 20, 10]"
    by code_simp
  have l: "fold (apply_rule sample_source) SECURITY_PATTERNS initial_results =
       \<lparr>errors = [''CRITICAL: Code evaluation forbidden (3 instances)'',
                  ''HIGH: Process execution forbidden (2 instances)''],
        warnings = [''MEDIUM: Infinite loops detected (1 instances)''],
        score = 40, isValid = True\<rparr>"
    by code_simp
  have s: "scan_code sample_source initial_results =
       \<lparr>errors = [''CRITICAL: Code evaluation forbidden (3 instances)'',
                  ''HIGH: Process execution forbidden (2 instances)'',
                  ''Integration must export a default class''],
        warnings = [''MEDIUM: Infinite loops detected (1 instances)'',
                    ''Integration should implement onLoad() method''],
        score = 10, isValid = True\<rparr>"
    by code_simp
  from rule_penalty_once [of sample_source _ initial_results sample_dir] g f
  have "validate_code sample_dir initial_results = scan_code sample_source initial_results"
    by blast
  with g f c m p l s show ?thesis by (simp only: simp_thms)
qed



section \<open>The guard of the source scan\<close>

lemma missing_source_reported:
  assumes "d ''src/integration.js'' = None"
  shows "''Missing required file: src/integration.js'' \<in> set (errors (check_files d r))"
  using assms
  by (simp add: check_files_def REQUIRED_FILES_def check_file_def access_def push_error_def)

text \<open>When the source file is reported missing, the scan is skipped.\<close>

lemma scan_skipped_when_reported_missing:
  assumes "d ''src/integration.js'' = None"
  shows "validate_code d (before_code parse d) = before_code parse d"
proof -
  let ?m = "''Missing required file: src/integration.js''"
  have "prefix (errors (check_files d initial_results)) (errors (before_code parse d))"
    using grows_before_code [of d parse] by (simp add: grows_def)
  then have "set (errors (check_files d initial_results)) \<subseteq> set (errors (before_code parse d))"
    by (rule set_mono_prefix)
  then have "?m \<in> set (errors (before_code parse d))"
    using missing_source_reported [of d initial_results] assms by blast
  moreover have "str_includes ?m ''src/integration.js''"
    by simp
  ultimately have "\<exists>e \<in> set (errors (before_code parse d)). str_includes e ''src/integration.js''"
    by blast
  then have "\<not> no_error_mentions ''src/integration.js'' (before_code parse d)"
    unfolding no_error_mentions_def list_all_iff by auto
  then show ?thesis by (simp add: validate_code_def)
qed

text \<open>
  Claim C5. The source scan is meant to be skipped only when \<open>src/integration.js\<close> was
  reported missing. Here the file is there and nothing reports it missing, and the scan is
  skipped all the same: the manifest declares a dependency named \<open>src/integration.js\<close>, the
  error for it mentions the path, and the guard of the phase takes any error that mentions the
  path for the report of the missing file. The scan, had it run, would have added two errors.
\<close>

theorem scan_skipped_by_dependency_name:
  "access eval_dir ''src/integration.js''
   \<and> errors (before_code example_parse eval_dir) = [''Unauthorized dependency: src/integration.js'']
   \<and> validate_code eval_dir (before_code example_parse eval_dir) = before_code example_parse eval_dir
   \<and> errors (code_checks eval_dir (before_code example_parse eval_dir)) =
        [''Unauthorized dependency: src/integration.js'',
         ''CRITICAL: Code evaluation forbidden (1 instances)'',
         ''Integration must export a default class'']
   \<and> errors (validateIntegration example_parse eval_dir) = [''Unauthorized dependency: src/integration.js'']
   \<and> score (validateIntegration example_parse eval_dir) = 85"
  by code_simp

section \<open>Settings, ids and class names\<close>

text \<open>
  Claim C9. \<open>getSetting\<close> returns the default when the key is absent and also whenever the
  stored value is falsy (\<open>false\<close>, \<open>0\<close>, the empty string, \<open>null\<close>): a stored \<open>false\<close> cannot be
  told from no setting at all.
\<close>

theorem getSetting_falsy_gives_default:
  "(settings key = None \<longrightarrow> getSetting settings key dflt = dflt)
   \<and> (\<not> truthy (settings key) \<longrightarrow> getSetting settings key dflt = dflt)
   \<and> \<not> truthy (Some (JBool False)) \<and> \<not> truthy (Some (JNum ''0''))
   \<and> \<not> truthy (Some (JStr [])) \<and> \<not> truthy (Some JNull)
   \<and> getSetting (settings(key \<mapsto> JBool False)) key dflt = getSetting (settings(key := None)) key dflt"
  by (auto simp: getSetting_def split: option.splits)

theorem getSetting_falsy_gives_default_witness:
  "example_settings ''enabled'' = Some (JBool False)
   \<and> \<not> truthy (example_settings ''enabled'')
   \<and> getSetting example_settings ''enabled'' (JBool True) = JBool True
   \<and> example_settings ''missing'' = None
   \<and> getSetting example_settings ''missing'' (JBool True) = JBool True"
  using getSetting_falsy_gives_default [of example_settings "''enabled''" "JBool True"]
    getSetting_falsy_gives_default [of example_settings "''missing''" "JBool True"]
  by (simp add: example_settings_def)

lemma rmatch_Star_End:
  "list_all (cls_match k) s \<Longrightarrow> rmatch [Star k, End] s = Some (length s)"
  by (induction s) simp_all

lemma test_anchored_id_re:
  assumes "s \<noteq> []" and "list_all (cls_match IdChar) s"
  shows "test_anchored id_re s"
proof -
  from assms obtain x xs where s: "s = x # xs" by (cases s) auto
  with assms(2) have "cls_match IdChar x" and "list_all (cls_match IdChar) xs" by simp_all
  then show ?thesis
    by (simp add: test_anchored_def id_re_def one_or_more_def s rmatch_Star_End)
qed

lemma replace_non_id_IdChar: "list_all (cls_match IdChar) (replace_non_id s)"
  by (induction s) (simp_all add: replace_non_id_def code_unit_def)

lemma replace_non_id_Nil: "replace_non_id s = [] \<longleftrightarrow> s = []"
  by (simp add: replace_non_id_def)

lemma toLowerCase_Nil: "toLowerCase s = [] \<longleftrightarrow> s = []"
  by (cases s) (simp_all add: toLowerCase_def)

lemma check_id_matching:
  assumes "s \<noteq> []" and "test_anchored id_re s"
    and "get_prop config ''id'' = Inr (Some (JStr s))"
  shows "check_id config r = Inr r"
  using assms by (simp add: check_id_def)

text \<open>
  Claim C10. Whatever text lower-casing gives, if it is not empty then replacing every
  character outside \<open>[a-z0-9]\<close> by a hyphen gives a non-empty text that matches
  \<open>/^[a-z0-9-_]+$/\<close>; this does not depend on how many code units the lower-cased text has. The
  lower-cased text of a non-empty name is not empty, so the default id the scaffolder derives
  from a non-empty name is non-empty and matches, and the validator's id check leaves the result
  of a metadata record with that id as it is.
\<close>

theorem default_id_passes_id_check:
  "(lowered \<noteq> [] \<longrightarrow>
      replace_non_id lowered \<noteq> []
      \<and> test_anchored id_re (replace_non_id lowered)
      \<and> (get_prop config ''id'' = Inr (Some (JStr (replace_non_id lowered)))
           \<longrightarrow> check_id config r = Inr r))
   \<and> (name \<noteq> [] \<longrightarrow>
      default_id name \<noteq> []
      \<and> test_anchored id_re (default_id name)
      \<and> (get_prop config ''id'' = Inr (Some (JStr (default_id name)))
           \<longrightarrow> check_id config r = Inr r))"
proof -
  have any: "replace_non_id s \<noteq> [] \<and> test_anchored id_re (replace_non_id s)
      \<and> (get_prop config ''id'' = Inr (Some (JStr (replace_non_id s))) \<longrightarrow> check_id config r = Inr r)"
    if "s \<noteq> []" for s
  proof -
    from that have ne: "replace_non_id s \<noteq> []"
      by (simp only: replace_non_id_Nil not_False_eq_True)
    have t: "test_anchored id_re (replace_non_id s)"
      by (rule test_anchored_id_re [OF ne replace_non_id_IdChar])
    from ne t show ?thesis
      using check_id_matching by blast
  qed
  have low: "toLowerCase name \<noteq> []" if "name \<noteq> []"
    using that by (simp only: toLowerCase_Nil not_False_eq_True)
  show ?thesis
    unfolding default_id_def using any low by blast
qed

theorem default_id_passes_id_check_witness:
  "''Cool Bot!'' \<noteq> []
   \<and> default_id ''Cool Bot!'' = ''cool-bot-''
   \<and> test_anchored id_re (default_id ''Cool Bot!'')
   \<and> get_prop (JObj [(''id'', JStr (default_id ''Cool Bot!''))]) ''id''
       = Inr (Some (JStr (default_id ''Cool Bot!'')))
   \<and> check_id (JObj [(''id'', JStr (default_id ''Cool Bot!''))]) initial_results = Inr initial_results
   \<and> ''cool bot!'' \<noteq> []
   \<and> replace_non_id ''cool bot!'' = ''cool-bot-''
   \<and> test_anchored id_re (replace_non_id ''cool bot!'')
   \<and> get_prop (JObj [(''id'', JStr (replace_non_id ''cool bot!''))]) ''id''
       = Inr (Some (JStr (replace_non_id ''cool bot!'')))
   \<and> check_id (JObj [(''id'', JStr (replace_non_id ''cool bot!''))]) initial_results
       = Inr initial_results"
proof -
  have d: "default_id ''Cool Bot!'' = ''cool-bot-''" by code_simp
  have e: "replace_non_id ''cool bot!'' = ''cool-bot-''" by code_simp
  from default_id_passes_id_check [of "''cool bot!''" "JObj [(''id'', JStr ''cool-bot-'')]"
      initial_results "''Cool Bot!''"]
  show ?thesis by (simp add: d e)
qed

lemma split_char_not_Nil: "split_char c xs \<noteq> []"
  by (induction xs) (auto split: list.splits)

lemma split_char_Cons_other:
  "x \<noteq> c \<Longrightarrow> split_char c (x # xs) = (x # hd (split_char c xs)) # tl (split_char c xs)"
  using split_char_not_Nil [of c xs] by (cases "split_char c xs") simp_all

lemma alnum_not_space: "is_alnum x \<Longrightarrow> x \<noteq> CHR '' ''"
  by (auto simp: is_alnum_def is_lower_def is_upper_def is_digit_def code_unit_def)

lemma tokens_dropWhile: "tokens (blank xs) = tokens (blank (dropWhile (\<lambda>c. \<not> is_alnum c) xs))"
  by (induction xs) simp_all

lemma tokens_hd_tl:
  "tokens s = filter (\<lambda>w. w \<noteq> []) [hd (split_char CHR '' '' s)]
              @ filter (\<lambda>w. w \<noteq> []) (tl (split_char CHR '' '' s))"
  using split_char_not_Nil [of "CHR '' ''" s] by (cases "split_char CHR '' '' s") simp_all

lemma split_blank_replace_runs:
  "hd (split_char CHR '' '' (blank s)) = hd (split_char CHR '' '' (replace_runs s))
   \<and> filter (\<lambda>w. w \<noteq> []) (tl (split_char CHR '' '' (blank s)))
       = filter (\<lambda>w. w \<noteq> []) (tl (split_char CHR '' '' (replace_runs s)))"
proof (induction s rule: replace_runs.induct)
  case 1
  show ?case by simp
next
  case (2 x xs)
  show ?case
  proof (cases "is_alnum x")
    case True
    with 2 show ?thesis
      by (simp add: split_char_Cons_other alnum_not_space del: split_char.simps)
  next
    case False
    let ?d = "dropWhile (\<lambda>c. \<not> is_alnum c) xs"
    have "tokens (blank xs) = tokens (blank ?d)" by (rule tokens_dropWhile)
    also have "\<dots> = tokens (replace_runs ?d)"
      using 2(2) [OF False] by (simp add: tokens_hd_tl [of "blank ?d"] tokens_hd_tl [of "replace_runs ?d"])
    finally show ?thesis using False by simp
  qed
qed

lemma tokens_blank_replace_runs: "tokens (blank s) = tokens (replace_runs s)"
  using split_blank_replace_runs [of s]
  by (simp add: tokens_hd_tl [of "blank s"] tokens_hd_tl [of "replace_runs s"])

text \<open>
  Claim C7. \<open>toPascalCase\<close> computes, for every string, what the specification describes;
  it maps \<open>cool bot-2\<close> to \<open>CoolBot2\<close> and the string of two spaces to the empty string.
\<close>

theorem toPascalCase_meets_spec:
  "toPascalCase str = toPascalCase_spec str
   \<and> toPascalCase ''cool bot-2'' = ''CoolBot2''
   \<and> toPascalCase ''  '' = []"
proof (intro conjI)
  show "toPascalCase str = toPascalCase_spec str"
    by (simp add: toPascalCase_def toPascalCase_spec_def tokens_blank_replace_runs)
  show "toPascalCase ''cool bot-2'' = ''CoolBot2''" by code_simp
  show "toPascalCase ''  '' = []" by code_simp
qed

theorem toPascalCase_meets_spec_witness:
  "toPascalCase ''my--awesome  BOT'' = ''MyAwesomeBot''
   \<and> toPascalCase_spec ''my--awesome  BOT'' = ''MyAwesomeBot''"
proof -
  have "toPascalCase ''my--awesome  BOT'' = ''MyAwesomeBot''" by code_simp
  with toPascalCase_meets_spec [of "''my--awesome  BOT''"] show ?thesis by simp
qed

section \<open>A metadata record without category\<close>

lemma one_more_error_appends:
  assumes "one_more_error m p r r'" and "appends f"
  shows "one_more_error m p (f r) (f r')"
proof -
  from assms(2) obtain E W P where f: "\<And>r. f r = shift E W P r"
    unfolding appends_def by blast
  from assms(1) obtain A B where ab: "errors r = A @ [m] @ B" "errors r' = A @ B"
    and w: "warnings r = warnings r'" and s: "score r = score r' - p"
    unfolding one_more_error_def by blast
  have "errors (f r) = A @ [m] @ (B @ E)" "errors (f r') = A @ (B @ E)"
    by (simp_all add: f shift_def ab)
  moreover have "warnings (f r) = warnings (f r')" "score (f r) = score (f r') - p"
    by (simp_all add: f shift_def w s)
  ultimately show ?thesis
    unfolding one_more_error_def by blast
qed

lemma one_more_error_guard:
  assumes "one_more_error m p r r'" and "\<not> str_includes m file"
  shows "no_error_mentions file r = no_error_mentions file r'"
proof -
  from assms(1) obtain A B where "errors r = A @ [m] @ B" "errors r' = A @ B"
    unfolding one_more_error_def by blast
  with assms(2) show ?thesis
    by (auto simp: no_error_mentions_def)
qed

lemma one_more_error_guarded:
  assumes "one_more_error m p r r'" and "\<not> str_includes m file" and "appends f"
  shows "one_more_error m p (if no_error_mentions file r then f r else r)
           (if no_error_mentions file r' then f r' else r')"
  using one_more_error_guard [OF assms(1,2)] one_more_error_appends [OF assms(1,3)] assms(1)
  by simp

lemma check_fields_append:
  "check_fields config (fs @ gs) r = and_then (check_fields config fs r) (check_fields config gs)"
  by (induction fs arbitrary: r) (simp_all add: and_then_def split: sum.splits)

lemma check_fields_JObj:
  "\<exists>E P. 0 \<le> P \<and> (\<forall>r. check_fields (JObj kvs) fs r = Inr (shift E [] P r))"
proof (induction fs)
  case Nil
  have "\<forall>r. check_fields (JObj kvs) [] r = Inr (shift [] [] 0 r)" by (simp add: shift_nil)
  then show ?case by (intro exI [of _ "[]"] exI [of _ 0]) simp
next
  case (Cons f fs)
  then obtain E P where ep: "0 \<le> P" "\<And>r. check_fields (JObj kvs) fs r = Inr (shift E [] P r)"
    by blast
  show ?case
  proof (cases "truthy (map_of kvs f)")
    case True
    then have "\<forall>r. check_fields (JObj kvs) (f # fs) r = Inr (shift E [] P r)"
      by (simp add: ep)
    with ep(1) show ?thesis by blast
  next
    case False
    then have "\<forall>r. check_fields (JObj kvs) (f # fs) r
        = Inr (shift ([''Missing required config field: '' @ f] @ E) ([] @ []) (10 + P) r)"
      by (simp add: ep push_error_shift shift_shift)
    moreover have "0 \<le> 10 + P" using ep(1) by simp
    ultimately show ?thesis by (metis append_Nil)
  qed
qed

lemma check_fields_cong:
  "(\<forall>f \<in> set fs. map_of kvs f = map_of kvs' f) \<Longrightarrow>
   check_fields (JObj kvs) fs r = check_fields (JObj kvs') fs r"
  by (induction fs arbitrary: r) simp_all

lemma validCategories_nonempty: "c \<in> set validCategories \<Longrightarrow> c \<noteq> []"
  by (auto simp: validCategories_def)

lemma config_tail_eq:
  assumes "map_of kvs' = (map_of kvs)(''category'' \<mapsto> JStr c)"
    and "map_of kvs ''category'' = None"
    and "c \<in> set validCategories"
  shows "check_version (JObj kvs') = check_version (JObj kvs)"
    and "check_id (JObj kvs') = check_id (JObj kvs)"
    and "check_category (JObj kvs') = (\<lambda>r. Inr r)"
    and "check_category (JObj kvs) = (\<lambda>r. Inr r)"
    and "check_fields (JObj kvs') [''developer''] = check_fields (JObj kvs) [''developer'']"
    and "check_fields (JObj kvs') [''id'', ''name'', ''version'', ''description'']
         = check_fields (JObj kvs) [''id'', ''name'', ''version'', ''description'']"
    and "check_fields (JObj kvs') [''category''] = (\<lambda>r. Inr r)"
    and "check_fields (JObj kvs) [''category'']
         = (\<lambda>r. Inr (push_error r ''Missing required config field: category'' 10))"
  using assms validCategories_nonempty [OF assms(3)]
  by (simp_all add: fun_eq_iff check_version_def check_id_def check_category_def)

lemma check_fields_required:
  "check_fields config REQUIRED_CONFIG_FIELDS r =
     and_then (and_then (check_fields config [''id'', ''name'', ''version'', ''description''] r)
       (check_fields config [''category''])) (check_fields config [''developer''])"
proof -
  have e: "REQUIRED_CONFIG_FIELDS =
     ([''id'', ''name'', ''version'', ''description''] @ [''category'']) @ [''developer'']"
    by (simp add: REQUIRED_CONFIG_FIELDS_def)
  show ?thesis
    unfolding e by (simp only: check_fields_append)
qed

lemma config_checks_pair:
  assumes rd: "readFile d ''mercy-integration.json'' = Inr text"
      "readFile d' ''mercy-integration.json'' = Inr text'"
    and parse: "parse text = Inr (JObj kvs)" "parse text' = Inr (JObj kvs')"
    and kvs: "map_of kvs' = (map_of kvs)(''category'' \<mapsto> JStr c)"
      "map_of kvs ''category'' = None" "c \<in> set validCategories"
  shows "one_more_error ''Missing required config field: category'' 10
           (config_checks parse d r) (config_checks parse d' r)"
proof -
  let ?m = "''Missing required config field: category''"
  let ?pre = "[''id'', ''name'', ''version'', ''description'']"
  let ?T = "\<lambda>r. and_then (and_then (and_then (check_fields (JObj kvs) [''developer''] r)
                (check_version (JObj kvs))) (check_id (JObj kvs))) (\<lambda>r. Inr r)"
  let ?catch = "\<lambda>x. case x of
       Inl (msg, r') \<Rightarrow> push_error r' (''Invalid mercy-integration.json: '' @ msg) 25
     | Inr r' \<Rightarrow> r'"
  note eqs = config_tail_eq [OF kvs]
  obtain E1 P1 where pre: "\<And>r. check_fields (JObj kvs) ?pre r = Inr (shift E1 [] P1 r)"
    using check_fields_JObj [of kvs ?pre] by blast
  have "appends_try ?T"
    by (intro appends_try_and_then appends_try_check_fields appends_try_check_version
          appends_try_check_id appends_try_done)
  then have "appends (\<lambda>r. ?catch (?T r))"
    by (rule appends_catch) simp
  then obtain E3 W3 P3 where tail: "\<And>r. ?catch (?T r) = shift E3 W3 P3 r"
    unfolding appends_def by blast
  have l: "config_checks parse d r = ?catch (?T (push_error (shift E1 [] P1 r) ?m 10))"
    by (simp add: config_checks_def config_body_def rd parse check_fields_required
          eqs pre and_then_def del: check_fields.simps)
  have c: "config_checks parse d' r = ?catch (?T (shift E1 [] P1 r))"
    by (simp add: config_checks_def config_body_def rd parse check_fields_required
          eqs pre and_then_def del: check_fields.simps)
  have "errors (config_checks parse d r) = (errors r @ E1) @ [?m] @ E3"
    "errors (config_checks parse d' r) = (errors r @ E1) @ E3"
    "warnings (config_checks parse d r) = warnings (config_checks parse d' r)"
    "score (config_checks parse d r) = score (config_checks parse d' r) - 10"
    unfolding l c tail by (simp_all add: shift_def push_error_def)
  then show ?thesis
    unfolding one_more_error_def by blast
qed

lemma mentions_category:
  "\<not> str_includes ''Missing required config field: category'' ''package.json''"
  "\<not> str_includes ''Missing required config field: category'' ''src/integration.js''"
  by simp_all

lemma config_guard_when_present:
  assumes "d ''mercy-integration.json'' \<noteq> None"
  shows "no_error_mentions ''mercy-integration.json'' (check_files d initial_results)"
  using assms
  by (simp add: no_error_mentions_def check_files_def REQUIRED_FILES_def check_file_def
        access_def initial_results_def push_error_def)


lemma one_more_error_verdict:
  "one_more_error m p r r' \<Longrightarrow> one_more_error m p (verdict r) (verdict r')"
  by (simp add: one_more_error_def verdict_def)

lemma run_without_category:
  "validateIntegration example_parse dir_without_category =
     \<lparr>errors = [''Missing required config field: category''], warnings = [],
      score = 90, isValid = False\<rparr>"
  by code_simp

lemma run_example:
  "validateIntegration example_parse example_dir =
     \<lparr>errors = [], warnings = [], score = 100, isValid = True\<rparr>"
  by code_simp

text \<open>
  Claim C4, as stated: leaving \<open>category\<close> out of the metadata record would not change the
  verdict when all other checks pass and the score stays at or above 70. It does: with the
  category the example passes with score 100; without it every other check still passes and the
  score is 90, but the verdict is negative, because the omission is reported as an error.
\<close>

theorem category_omission_counterexample:
  "errors (validateIntegration example_parse example_dir) = []
   \<and> score (validateIntegration example_parse example_dir) = 100
   \<and> isValid (validateIntegration example_parse example_dir)
   \<and> errors (validateIntegration example_parse dir_without_category)
       = [''Missing required config field: category'']
   \<and> warnings (validateIntegration example_parse dir_without_category) = []
   \<and> score (validateIntegration example_parse dir_without_category) = 90
   \<and> \<not> isValid (validateIntegration example_parse dir_without_category)"
  by (simp add: run_without_category run_example)

text \<open>
  Claim C4, amended. Take a metadata file that parses to an object without \<open>category\<close>, and
  the same directory with a record that differs only by a \<open>category\<close> that is one of the six
  allowed values. The run on the first ends exactly 10 points lower, with the same warnings and
  with the same errors plus \<open>Missing required config field: category\<close>; its verdict is
  negative, whatever the other checks and the score.
\<close>

theorem missing_category_costs_ten_and_fails:
  assumes "d ''mercy-integration.json'' = Some (File text)"
    and "d' = d(''mercy-integration.json'' \<mapsto> File text')"
    and "parse text = Inr (JObj kvs)"
    and "parse text' = Inr (JObj kvs')"
    and "map_of kvs ''category'' = None"
    and "map_of kvs' = (map_of kvs)(''category'' \<mapsto> JStr c)"
    and "c \<in> set validCategories"
  shows "score (validateIntegration parse d) = score (validateIntegration parse d') - 10
         \<and> warnings (validateIntegration parse d) = warnings (validateIntegration parse d')
         \<and> (\<exists>A B. errors (validateIntegration parse d)
                      = A @ [''Missing required config field: category''] @ B
                  \<and> errors (validateIntegration parse d') = A @ B)
         \<and> \<not> isValid (validateIntegration parse d)"
proof -
  let ?m = "''Missing required config field: category''"
  let ?r1 = "check_files d initial_results"
  have files: "check_files d' = check_files d"
    by (simp add: fun_eq_iff check_files_def REQUIRED_FILES_def check_file_def access_def assms(1,2))
  have package: "validate_package parse d' = validate_package parse d"
    by (simp add: fun_eq_iff validate_package_def package_checks_def package_body_def
          readFile_def assms(2))
  have code: "validate_code d' = validate_code d"
    by (simp add: fun_eq_iff validate_code_def code_checks_def readFile_def assms(2))
  have readme: "check_readme d' = check_readme d"
    by (simp add: fun_eq_iff check_readme_def readFile_def assms(2))
  have tests: "check_tests d' = check_tests d"
    by (simp add: fun_eq_iff check_tests_def access_def assms(2))
  have rd: "readFile d ''mercy-integration.json'' = Inr text"
    "readFile d' ''mercy-integration.json'' = Inr text'"
    by (simp_all add: readFile_def assms(1,2))
  have guard: "no_error_mentions ''mercy-integration.json'' ?r1"
    by (rule config_guard_when_present) (simp add: assms(1))
  let ?r2 = "validate_config parse d ?r1" and ?r2' = "validate_config parse d' ?r1"
  have 2: "one_more_error ?m 10 ?r2 ?r2'"
    using config_checks_pair [OF rd assms(3,4,6,5,7), of ?r1]
    by (simp add: validate_config_def guard)
  let ?r3 = "validate_package parse d ?r2" and ?r3' = "validate_package parse d ?r2'"
  have 3: "one_more_error ?m 10 ?r3 ?r3'"
    unfolding validate_package_def
    by (rule one_more_error_guarded [OF 2 mentions_category(1) appends_package_checks])
  let ?r4 = "validate_code d ?r3" and ?r4' = "validate_code d ?r3'"
  have 4: "one_more_error ?m 10 ?r4 ?r4'"
    unfolding validate_code_def
    by (rule one_more_error_guarded [OF 3 mentions_category(2) appends_code_checks])
  have 5: "one_more_error ?m 10 (check_readme d ?r4) (check_readme d ?r4')"
    by (rule one_more_error_appends [OF 4 appends_check_readme])
  have 6: "one_more_error ?m 10 (check_tests d (check_readme d ?r4))
             (check_tests d (check_readme d ?r4'))"
    by (rule one_more_error_appends [OF 5 appends_check_tests])
  have 7: "one_more_error ?m 10 (validateIntegration parse d) (validateIntegration parse d')"
    using one_more_error_verdict [OF 6]
    by (simp add: validateIntegration_def files package code readme tests)
  then obtain A B where ab: "errors (validateIntegration parse d) = A @ [?m] @ B"
    "errors (validateIntegration parse d') = A @ B"
    unfolding one_more_error_def by blast
  then have "\<not> isValid (validateIntegration parse d)"
    by (simp add: isValid_validateIntegration)
  with 7 ab show ?thesis
    unfolding one_more_error_def by blast
qed

theorem missing_category_costs_ten_and_fails_witness:
  "dir_without_category ''mercy-integration.json'' = Some (File config_text_without_category)
   \<and> example_dir = dir_without_category(''mercy-integration.json'' \<mapsto> File config_text)
   \<and> example_parse config_text_without_category = Inr config_without_category
   \<and> example_parse config_text = Inr example_config
   \<and> ''utility'' \<in> set validCategories
   \<and> score (validateIntegration example_parse dir_without_category)
       = score (validateIntegration example_parse example_dir) - 10
   \<and> \<not> isValid (validateIntegration example_parse dir_without_category)"
proof -
  have 1: "dir_without_category ''mercy-integration.json'' = Some (File config_text_without_category)"
    by (simp add: dir_without_category_def)
  have 2: "example_dir = dir_without_category(''mercy-integration.json'' \<mapsto> File config_text)"
    by (simp add: dir_without_category_def example_dir_def fun_eq_iff)
  have 3: "example_parse config_text_without_category = Inr config_without_category"
    by code_simp
  have 4: "example_parse config_text = Inr example_config"
    by code_simp
  have 5: "map_of [(''id'', JStr ''cool-bot''), (''name'', JStr ''Cool Bot''),
             (''version'', JStr ''1.0.0''), (''description'', JStr ''A bot''),
             (''developer'', JObj [(''name'', JStr ''Dev''), (''email'', JStr ''dev@example.org'')])]
            ''category'' = None"
    by simp
  have 6: "map_of [(''id'', JStr ''cool-bot''), (''name'', JStr ''Cool Bot''),
             (''version'', JStr ''1.0.0''), (''description'', JStr ''A bot''),
             (''category'', JStr ''utility''),
             (''developer'', JObj [(''name'', JStr ''Dev''), (''email'', JStr ''dev@example.org'')])]
           = (map_of [(''id'', JStr ''cool-bot''), (''name'', JStr ''Cool Bot''),
             (''version'', JStr ''1.0.0''), (''description'', JStr ''A bot''),
             (''developer'', JObj [(''name'', JStr ''Dev''), (''email'', JStr ''dev@example.org'')])])
             (''category'' \<mapsto> JStr ''utility'')"
    by (simp add: fun_eq_iff)
  have 7: "''utility'' \<in> set validCategories"
    by (simp add: validCategories_def)
  from missing_category_costs_ten_and_fails
         [OF 1 2 3 [unfolded config_without_category_def] 4 [unfolded example_config_def] 5 6 7]
  have "score (validateIntegration example_parse dir_without_category)
          = score (validateIntegration example_parse example_dir) - 10
        \<and> \<not> isValid (validateIntegration example_parse dir_without_category)"
    by blast
  with 1 2 3 4 7 show ?thesis by blast
qed

section \<open>The two generated source files under the source scan\<close>















lemma of_char_char_of_small: "n < 256 \<Longrightarrow> of_char (char_of n :: char) = (n::nat)"
  by simp


































end
